theory Spec2Isabelle
  imports Complex_Main
begin

section \<open>Shared data model (src/econnect/src/types/index.ts)\<close>

text \<open>
  A JavaScript \<open>Date\<close> is modelled by its millisecond time stamp. An optional field
  (\<open>leaveTime?\<close>, \<open>endTime?\<close>) is an \<open>option\<close>. Every remote call (document store,
  conferencing API) is handed the outcome the environment gives it: \<open>Completes\<close> when the call
  returns, \<open>Throws e\<close> when it raises or its promise rejects with the value \<open>e\<close>, so that
  each \<open>catch\<close> block of the source is a branch of the model.
\<close>

type_synonym date = nat

datatype thrown = JsError string | NonError

datatype transport = Completes | Throws thrown

datatype participantRole = Moderator | Viewer

datatype userRole = Admin | PlainUser | ServiceProvider

record User =
  id' :: string
  email :: string
  displayName :: string
  photoURL :: "string option"
  role :: userRole

text \<open>The identity provider's user object (\<open>currentUser\<close>): only \<open>uid\<close> and \<open>email\<close> are read.\<close>

record FirebaseUser =
  uid :: string
  fbEmail :: "string option"

record Participant =
  userId :: string
  pDisplayName :: string
  pRole :: participantRole
  joinTime :: date
  leaveTime :: "date option"

record Meeting =
  mEventId :: string
  mTitle :: string
  mStartTime :: date
  mEndTime :: "date option"
  hostId :: string
  mParticipants :: "Participant list"
  mJitsiRoomName :: string
  recordingEnabled :: bool
  mUpdatedAt :: date

record Event =
  eTitle :: string
  eDescription :: string
  eStartTime :: "int option"
  eEndTime :: "int option"
  createdBy :: string
  isPublic :: bool
  maxParticipants :: "int option"
  eParticipants :: "string list"
  eJitsiRoomName :: string
  eCreatedAt :: date
  eUpdatedAt :: date

text \<open>
  An event's start and end are \<open>new Date(string)\<close>: \<open>None\<close> is JavaScript's Invalid Date.
  A table's \<open>capacity\<close> is a JavaScript number read back from the store: \<open>None\<close> stands for an
  absent field, \<open>Some q\<close> for a finite number (the create dialog stores whatever
  \<open>Number(e.target.value)\<close> yields, so it need not be a positive integer).
\<close>

record VirtualTable =
  tEventId :: string
  tName :: string
  capacity :: "rat option"
  tParticipants :: "string list"
  tCreatedAt :: date
  tUpdatedAt :: date

section \<open>The document store\<close>

text \<open>
  A collection is the list of its documents, each paired with its document id, in the order a
  query returns them. \<open>getDoc\<close> reads one document, \<open>updateDoc\<close> rewrites fields of an
  existing document and raises (here: \<open>None\<close>) when there is no such document;
  \<open>awaitUpdateDoc\<close> is the awaited call, which also raises when the transport fails.
  \<open>addDoc\<close> stores a new document under the id the store assigns. \<open>arrayUnion\<close> and \<open>arrayRemove\<close>
  are the store's field operators.
\<close>

type_synonym 'a collection = "(string \<times> 'a) list"

record Firestore =
  users :: "User collection"
  events :: "Event collection"
  meetings :: "Meeting collection"
  virtualTables :: "VirtualTable collection"

definition getDoc :: "'a collection \<Rightarrow> string \<Rightarrow> 'a option" where
  "getDoc c k = map_of c k"

definition updateDoc :: "'a collection \<Rightarrow> string \<Rightarrow> ('a \<Rightarrow> 'a) \<Rightarrow> 'a collection option" where
  "updateDoc c k f =
     (if k \<in> fst ` set c
      then Some (map (\<lambda>(k', v). if k' = k then (k', f v) else (k', v)) c)
      else None)"

definition awaitUpdateDoc ::
  "transport \<Rightarrow> 'a collection \<Rightarrow> string \<Rightarrow> ('a \<Rightarrow> 'a) \<Rightarrow> 'a collection option" where
  "awaitUpdateDoc io c k f = (case io of Throws e \<Rightarrow> None | Completes \<Rightarrow> updateDoc c k f)"

definition addDoc :: "'a collection \<Rightarrow> string \<Rightarrow> 'a \<Rightarrow> 'a collection" where
  "addDoc c newId v = c @ [(newId, v)]"

definition arrayUnion :: "'a \<Rightarrow> 'a list \<Rightarrow> 'a list" where
  "arrayUnion x xs = (if x \<in> set xs then xs else xs @ [x])"

definition arrayRemove :: "'a \<Rightarrow> 'a list \<Rightarrow> 'a list" where
  "arrayRemove x xs = filter (\<lambda>y. y \<noteq> x) xs"

section \<open>MeetingRoom (src/econnect/src/components/meetings/MeetingRoom.tsx)\<close>

text \<open>
  The component's state is the four \<open>useState\<close> cells and the route it last navigated to.
  The room (and with it the \<open>onMeetingEnd\<close> callback) is rendered only when the component is
  neither loading nor in error and holds a meeting.
\<close>

record MeetingRoomState =
  meeting :: "Meeting option"
  loading :: bool
  error :: "string option"
  isHost :: bool
  navigated :: "string option"

definition MeetingRoom_init :: MeetingRoomState where
  "MeetingRoom_init =
     \<lparr>meeting = None, loading = True, error = None, isHost = False, navigated = None\<rparr>"

definition rendersRoom :: "MeetingRoomState \<Rightarrow> bool" where
  "rendersRoom st = (\<not> loading st \<and> error st = None \<and> meeting st \<noteq> None)"

text \<open>\<open>userProfile?.displayName || currentUser.email || 'Anonymous'\<close>: an empty string is falsy.\<close>

definition participantName :: "User option \<Rightarrow> FirebaseUser \<Rightarrow> string" where
  "participantName userProfile currentUser =
     (case userProfile of
        Some p \<Rightarrow>
          (if displayName p \<noteq> [] then displayName p
           else (case fbEmail currentUser of
                   Some e \<Rightarrow> if e \<noteq> [] then e else ''Anonymous''
                 | None \<Rightarrow> ''Anonymous''))
      | None \<Rightarrow>
          (case fbEmail currentUser of
             Some e \<Rightarrow> if e \<noteq> [] then e else ''Anonymous''
           | None \<Rightarrow> ''Anonymous''))"

definition newParticipant :: "Meeting \<Rightarrow> FirebaseUser \<Rightarrow> User option \<Rightarrow> date \<Rightarrow> Participant" where
  "newParticipant meetingData currentUser userProfile now =
     \<lparr>userId = uid currentUser,
      pDisplayName = participantName userProfile currentUser,
      pRole = (if hostId meetingData = uid currentUser then Moderator else Viewer),
      joinTime = now,
      leaveTime = None\<rparr>"

text \<open>
  \<open>fetchMeeting\<close> (lines 28-76). \<open>now\<close> is the client clock (\<open>new Date()\<close>), \<open>srv\<close> the
  server time stamp, \<open>rd\<close> and \<open>wr\<close> the outcomes of \<open>getDoc\<close> and \<open>updateDoc\<close>.
  A route parameter may be undefined (\<open>None\<close>) and an empty string is falsy.
\<close>

definition fetchMeeting ::
  "string option \<Rightarrow> FirebaseUser option \<Rightarrow> User option \<Rightarrow> date \<Rightarrow> date \<Rightarrow>
   transport \<Rightarrow> transport \<Rightarrow> Firestore \<Rightarrow> MeetingRoomState \<Rightarrow> Firestore \<times> MeetingRoomState"
where
  "fetchMeeting meetingId currentUser userProfile now srv rd wr db st =
     (case (meetingId, currentUser) of
        (Some mid, Some cu) \<Rightarrow>
          (if mid = [] then
             (db, st\<lparr>error := Some ''Invalid meeting ID or user not authenticated'',
                     loading := False\<rparr>)
           else
             (case rd of
                Throws e \<Rightarrow>
                  (db, st\<lparr>error := Some ''Failed to load meeting details'', loading := False\<rparr>)
              | Completes \<Rightarrow>
                  (case getDoc (meetings db) mid of
                     None \<Rightarrow> (db, st\<lparr>error := Some ''Meeting not found'', loading := False\<rparr>)
                   | Some meetingData \<Rightarrow>
                       (let st1 = st\<lparr>meeting := Some meetingData,
                                     isHost := (hostId meetingData = uid cu)\<rparr>;
                            participantExists =
                              list_ex (\<lambda>p. userId p = uid cu) (mParticipants meetingData)
                        in if \<not> participantExists then
                             (case awaitUpdateDoc wr (meetings db) mid
                                     (\<lambda>m. m\<lparr>mParticipants :=
                                               mParticipants meetingData
                                               @ [newParticipant meetingData cu userProfile now],
                                             mUpdatedAt := srv\<rparr>) of
                                None \<Rightarrow>
                                  (db, st1\<lparr>error := Some ''Failed to load meeting details'',
                                           loading := False\<rparr>)
                              | Some ms \<Rightarrow> (db\<lparr>meetings := ms\<rparr>, st1\<lparr>loading := False\<rparr>))
                           else (db, st1\<lparr>loading := False\<rparr>)))))
      | _ \<Rightarrow>
          (db, st\<lparr>error := Some ''Invalid meeting ID or user not authenticated'',
                  loading := False\<rparr>))"

text \<open>
  \<open>handleMeetingEnd\<close> (lines 81-110). The clock readings of one run are taken as the one
  instant \<open>now\<close>. A failure is only logged: the \<open>catch\<close> block changes nothing.
  \<open>isHost\<close> is the component's state cell, not a field of the record just read.
\<close>

definition markLeft :: "string \<Rightarrow> date \<Rightarrow> Participant list \<Rightarrow> Participant list" where
  "markLeft u now ps = map (\<lambda>p. if userId p = u then p\<lparr>leaveTime := Some now\<rparr> else p) ps"

definition handleMeetingEnd ::
  "string option \<Rightarrow> FirebaseUser option \<Rightarrow> date \<Rightarrow> date \<Rightarrow>
   transport \<Rightarrow> transport \<Rightarrow> Firestore \<Rightarrow> MeetingRoomState \<Rightarrow> Firestore \<times> MeetingRoomState"
where
  "handleMeetingEnd meetingId currentUser now srv rd wr db st =
     (case (meetingId, currentUser) of
        (Some mid, Some cu) \<Rightarrow>
          (if mid = [] then (db, st)
           else
             (case rd of
                Throws e \<Rightarrow> (db, st)
              | Completes \<Rightarrow>
                  (case getDoc (meetings db) mid of
                     None \<Rightarrow> (db, st\<lparr>navigated := Some ''/events''\<rparr>)
                   | Some meetingData \<Rightarrow>
                       (let updatedParticipants =
                              markLeft (uid cu) now (mParticipants meetingData)
                        in case awaitUpdateDoc wr (meetings db) mid
                                  (\<lambda>m. (if isHost st then m\<lparr>mEndTime := Some now\<rparr> else m)
                                          \<lparr>mParticipants := updatedParticipants,
                                           mUpdatedAt := srv\<rparr>) of
                             None \<Rightarrow> (db, st)
                           | Some ms \<Rightarrow>
                               (db\<lparr>meetings := ms\<rparr>, st\<lparr>navigated := Some ''/events''\<rparr>)))))
      | _ \<Rightarrow> (db, st))"

text \<open>A sequence of visits to the room of one meeting, each by a freshly mounted component.\<close>

type_synonym visit = "FirebaseUser \<times> User option \<times> date \<times> date \<times> transport \<times> transport"

fun joinAll :: "string \<Rightarrow> visit list \<Rightarrow> Firestore \<Rightarrow> Firestore" where
  "joinAll mid [] db = db"
| "joinAll mid ((cu, up, now, srv, rd, wr) # vs) db =
     joinAll mid vs (fst (fetchMeeting (Some mid) (Some cu) up now srv rd wr db MeetingRoom_init))"

section \<open>VirtualTables (src/unnamed/part_007)\<close>

text \<open>
  The component keeps its own copy of the event's tables (\<open>tables\<close>), fetched when it
  mounts; \<open>selectedTable\<close> and \<open>joinedTable\<close> hold such copies, each with its document id.
\<close>

record VirtualTablesState =
  tables :: "VirtualTable collection"
  usersData :: "User collection"
  vtLoading :: bool
  vtError :: "string option"
  selectedTable :: "(string \<times> VirtualTable) option"
  joinedTable :: "(string \<times> VirtualTable) option"
  showJitsi :: bool
  createDialogOpen :: bool
  newTableName :: string
  newTableCapacity :: rat
  creatingTable :: bool

definition VirtualTables_init :: VirtualTablesState where
  "VirtualTables_init =
     \<lparr>tables = [], usersData = [], vtLoading = True, vtError = None, selectedTable = None,
      joinedTable = None, showJitsi = False, createDialogOpen = False, newTableName = [],
      newTableCapacity = 6, creatingTable = False\<rparr>"

text \<open>\<open>query(collection(firestore, "virtualTables"), where("eventId", "==", eventId))\<close>\<close>

definition tablesQuery :: "string \<Rightarrow> Firestore \<Rightarrow> VirtualTable collection" where
  "tablesQuery eventId db = filter (\<lambda>(k, t). tEventId t = eventId) (virtualTables db)"

text \<open>The \<open>Set\<close> of participant ids of all tables, in insertion order.\<close>

definition userIdsOf :: "VirtualTable collection \<Rightarrow> string list" where
  "userIdsOf ts = foldl (\<lambda>acc u. if u \<in> set acc then acc else acc @ [u]) []
                    (concat (map (\<lambda>(k, t). tParticipants t) ts))"

definition lookupUsers :: "Firestore \<Rightarrow> string list \<Rightarrow> User collection" where
  "lookupUsers db userIds =
     concat (map (\<lambda>u. case getDoc (users db) u of Some usr \<Rightarrow> [(u, usr)] | None \<Rightarrow> []) userIds)"

text \<open>
  \<open>fetchTables\<close> (lines 77-141); \<open>q\<close> is the outcome of the query, \<open>ul\<close> that of the
  user look-ups (none is made when no table has a participant).
\<close>

definition fetchTables ::
  "string \<Rightarrow> FirebaseUser option \<Rightarrow> transport \<Rightarrow> transport \<Rightarrow> Firestore \<Rightarrow>
   VirtualTablesState \<Rightarrow> VirtualTablesState"
where
  "fetchTables eventId currentUser q ul db st =
     (if eventId = [] then st\<lparr>vtError := Some ''Invalid event ID'', vtLoading := False\<rparr>
      else
        (case q of
           Throws e \<Rightarrow> st\<lparr>vtError := Some ''Failed to load virtual tables'', vtLoading := False\<rparr>
         | Completes \<Rightarrow>
             (let tablesData = tablesQuery eventId db;
                  st1 = st\<lparr>tables := tablesData\<rparr>;
                  userIds = userIdsOf tablesData
              in if userIds \<noteq> [] \<and> ul \<noteq> Completes then
                   st1\<lparr>vtError := Some ''Failed to load virtual tables'', vtLoading := False\<rparr>
                 else
                   (let st2 = st1\<lparr>usersData := lookupUsers db userIds\<rparr>;
                        st3 = (case currentUser of
                                 Some cu \<Rightarrow>
                                   (case find (\<lambda>(k, t). uid cu \<in> set (tParticipants t))
                                           tablesData of
                                      Some joinedTableData \<Rightarrow>
                                        st2\<lparr>joinedTable := Some joinedTableData\<rparr>
                                    | None \<Rightarrow> st2)
                               | None \<Rightarrow> st2)
                    in st3\<lparr>vtLoading := False\<rparr>))))"

definition handleTableSelect ::
  "string \<times> VirtualTable \<Rightarrow> VirtualTablesState \<Rightarrow> VirtualTablesState" where
  "handleTableSelect table st = st\<lparr>selectedTable := Some table\<rparr>"

text \<open>
  The guard of lines 157-160:
  \<open>selectedTable.capacity && selectedTable.participants.length >= selectedTable.capacity\<close>.
  An absent capacity and the number 0 are falsy.
\<close>

definition tableFull :: "VirtualTable \<Rightarrow> bool" where
  "tableFull t =
     (case capacity t of
        None \<Rightarrow> False
      | Some c \<Rightarrow> c \<noteq> 0 \<and> of_nat (length (tParticipants t)) \<ge> c)"

text \<open>
  Lines 165-181: the two independent writes (leave the current table if at one, join the new
  one) and the state changes after them. \<open>w1\<close> and \<open>w2\<close> are the outcomes of the two writes;
  the first write is not undone when the second one fails.
\<close>

definition joinWrites ::
  "FirebaseUser \<Rightarrow> string \<times> VirtualTable \<Rightarrow> date \<Rightarrow> transport \<Rightarrow> transport \<Rightarrow> Firestore \<Rightarrow>
   VirtualTablesState \<Rightarrow> Firestore \<times> VirtualTablesState"
where
  "joinWrites cu sel srv w1 w2 db st =
     (case (case joinedTable st of
              Some (jid, jt) \<Rightarrow>
                awaitUpdateDoc w1 (virtualTables db) jid
                  (\<lambda>t. t\<lparr>tParticipants := arrayRemove (uid cu) (tParticipants t),
                          tUpdatedAt := srv\<rparr>)
            | None \<Rightarrow> Some (virtualTables db)) of
        None \<Rightarrow> (db, st\<lparr>vtError := Some ''Failed to join table''\<rparr>)
      | Some c1 \<Rightarrow>
          (case awaitUpdateDoc w2 c1 (fst sel)
                  (\<lambda>t. t\<lparr>tParticipants := arrayUnion (uid cu) (tParticipants t),
                          tUpdatedAt := srv\<rparr>) of
             None \<Rightarrow> (db\<lparr>virtualTables := c1\<rparr>, st\<lparr>vtError := Some ''Failed to join table''\<rparr>)
           | Some c2 \<Rightarrow>
               (db\<lparr>virtualTables := c2\<rparr>,
                st\<lparr>joinedTable := Some sel, selectedTable := None, showJitsi := True\<rparr>)))"

text \<open>\<open>handleJoinTable\<close> (lines 152-186).\<close>

definition handleJoinTable ::
  "FirebaseUser option \<Rightarrow> date \<Rightarrow> transport \<Rightarrow> transport \<Rightarrow> Firestore \<Rightarrow>
   VirtualTablesState \<Rightarrow> Firestore \<times> VirtualTablesState"
where
  "handleJoinTable currentUser srv w1 w2 db st =
     (case (selectedTable st, currentUser) of
        (Some sel, Some cu) \<Rightarrow>
          (if tableFull (snd sel) then (db, st\<lparr>vtError := Some ''This table is full''\<rparr>)
           else joinWrites cu sel srv w1 w2 db st)
      | _ \<Rightarrow> (db, st))"

text \<open>\<open>handleLeaveTable\<close> (lines 189-204).\<close>

definition handleLeaveTable ::
  "FirebaseUser option \<Rightarrow> date \<Rightarrow> transport \<Rightarrow> Firestore \<Rightarrow> VirtualTablesState \<Rightarrow>
   Firestore \<times> VirtualTablesState"
where
  "handleLeaveTable currentUser srv w db st =
     (case (joinedTable st, currentUser) of
        (Some (jid, jt), Some cu) \<Rightarrow>
          (case awaitUpdateDoc w (virtualTables db) jid
                  (\<lambda>t. t\<lparr>tParticipants := arrayRemove (uid cu) (tParticipants t),
                          tUpdatedAt := srv\<rparr>) of
             None \<Rightarrow> (db, st\<lparr>vtError := Some ''Failed to leave table''\<rparr>)
           | Some c \<Rightarrow> (db\<lparr>virtualTables := c\<rparr>, st\<lparr>joinedTable := None, showJitsi := False\<rparr>))
      | _ \<Rightarrow> (db, st))"

text \<open>
  The table grid (and so the join dialog) is rendered only when the component is neither
  loading nor in error nor showing the session of a joined table (lines 213-276).
\<close>

definition rendersGrid :: "VirtualTablesState \<Rightarrow> bool" where
  "rendersGrid st =
     (\<not> vtLoading st \<and> vtError st = None \<and> \<not> (joinedTable st \<noteq> None \<and> showJitsi st))"

text \<open>
  One whole join attempt by a freshly mounted component: load the tables, click the table
  with id \<open>tid\<close> in the grid, confirm the dialog.
\<close>

definition joinAttempt ::
  "string \<Rightarrow> FirebaseUser \<Rightarrow> string \<Rightarrow> date \<Rightarrow> transport \<Rightarrow> transport \<Rightarrow> transport \<Rightarrow>
   transport \<Rightarrow> Firestore \<Rightarrow> Firestore \<times> VirtualTablesState"
where
  "joinAttempt eventId cu tid srv q ul w1 w2 db =
     (let st = fetchTables eventId (Some cu) q ul db VirtualTables_init
      in if \<not> rendersGrid st then (db, st)
         else (case find (\<lambda>(k, t). k = tid) (tables st) of
                 None \<Rightarrow> (db, st)
               | Some table \<Rightarrow>
                   handleJoinTable (Some cu) srv w1 w2 db (handleTableSelect table st)))"

text \<open>
  The create-table dialog (lines 411-488). The capacity field is
  \<open><input type="number" min={1} max={50} onChange={e => setNewTableCapacity(Number(e.target.value))}>\<close>:
  the value of a number input is the empty string or a number's text, and \<open>Number('')\<close> is 0.
  What is typed reaches the handler whatever \<open>min\<close> and \<open>max\<close> say, and the button is no
  form submission, so nothing compares the value with them.
\<close>

definition capacityMin :: rat where "capacityMin = 1"
definition capacityMax :: rat where "capacityMax = 50"

definition onCapacityChange :: "rat option \<Rightarrow> VirtualTablesState \<Rightarrow> VirtualTablesState" where
  "onCapacityChange v st = st\<lparr>newTableCapacity := (case v of None \<Rightarrow> 0 | Some q \<Rightarrow> q)\<rparr>"

definition onNameChange :: "string \<Rightarrow> VirtualTablesState \<Rightarrow> VirtualTablesState" where
  "onNameChange v st = st\<lparr>newTableName := v\<rparr>"

text \<open>
  \<open>String.prototype.trim\<close> strips white space and line terminators; among the one-byte
  characters of the model these are the tab, the line feed, the vertical tab, the form feed,
  the carriage return, the space and the no-break space.
\<close>

definition isSpace :: "char \<Rightarrow> bool" where
  "isSpace c =
     (c \<in> set [CHR '' '', CHR 0x09, CHR 0x0A, CHR 0x0B, CHR 0x0C, CHR 0x0D, CHR 0xA0])"

definition trim :: "string \<Rightarrow> string" where
  "trim s = rev (dropWhile isSpace (rev (dropWhile isSpace s)))"

text \<open>
  The dialog's \<open>onClick\<close> (lines 439-480): \<open>w\<close> is the outcome of \<open>addDoc\<close>, \<open>newId\<close> the id
  the store assigns, \<open>q\<close> the outcome of the query that reloads the tables.
\<close>

definition createTable ::
  "string \<Rightarrow> date \<Rightarrow> string \<Rightarrow> transport \<Rightarrow> transport \<Rightarrow> Firestore \<Rightarrow> VirtualTablesState \<Rightarrow>
   Firestore \<times> VirtualTablesState"
where
  "createTable eventId now newId w q db st =
     (if trim (newTableName st) = [] \<or> eventId = [] then (db, st)
      else
        (let st1 = st\<lparr>creatingTable := True\<rparr>;
             newTable = \<lparr>tEventId = eventId, tName = trim (newTableName st),
                         capacity = Some (newTableCapacity st), tParticipants = [],
                         tCreatedAt = now, tUpdatedAt = now\<rparr>
         in case w of
              Throws e \<Rightarrow>
                (db, st1\<lparr>creatingTable := False, vtError := Some ''Failed to create table''\<rparr>)
            | Completes \<Rightarrow>
                (let db1 = db\<lparr>virtualTables := addDoc (virtualTables db) newId newTable\<rparr>;
                     st2 = st1\<lparr>newTableName := [], newTableCapacity := 6,
                                createDialogOpen := False, creatingTable := False,
                                vtLoading := True\<rparr>
                 in case q of
                      Throws e \<Rightarrow>
                        (db1, st2\<lparr>creatingTable := False,
                                   vtError := Some ''Failed to create table''\<rparr>)
                    | Completes \<Rightarrow>
                        (db1, st2\<lparr>tables := tablesQuery eventId db1, vtLoading := False\<rparr>))))"

section \<open>EventCreation (src/unnamed/part_003)\<close>

text \<open>
  The form's state. \<open>maxParticipants\<close> is \<open>number | ''\<close>, set by \<open>parseInt\<close>: \<open>None\<close> is the
  empty field (or NaN). \<open>parseDate\<close> stands for \<open>new Date(string)\<close>, \<open>roomName\<close> for the
  generated room name, \<open>newId\<close> for the id the store assigns, \<open>w\<close> for the outcome of
  \<open>addDoc\<close>.
\<close>

record EventCreationState =
  title :: string
  description :: string
  startTime :: string
  endTime :: string
  ecIsPublic :: bool
  ecMaxParticipants :: "int option"
  ecLoading :: bool
  ecError :: "string option"
  ecNavigated :: "string option"

text \<open>\<open>startDate >= endDate\<close> on two dates: false as soon as one of them is invalid.\<close>

definition dateGe :: "int option \<Rightarrow> int option \<Rightarrow> bool" where
  "dateGe a b = (case (a, b) of (Some x, Some y) \<Rightarrow> x \<ge> y | _ \<Rightarrow> False)"

definition handleSubmit ::
  "User option \<Rightarrow> (string \<Rightarrow> int option) \<Rightarrow> string \<Rightarrow> date \<Rightarrow> string \<Rightarrow> transport \<Rightarrow>
   Firestore \<Rightarrow> EventCreationState \<Rightarrow> Firestore \<times> EventCreationState"
where
  "handleSubmit userProfile parseDate roomName srv newId w db st =
     (case userProfile of
        None \<Rightarrow> (db, st\<lparr>ecError := Some ''You must be logged in to create an event''\<rparr>)
      | Some up \<Rightarrow>
          (if title st = [] \<or> description st = [] \<or> startTime st = [] \<or> endTime st = [] then
             (db, st\<lparr>ecError := Some ''Please fill in all required fields''\<rparr>)
           else
             (let startDate = parseDate (startTime st);
                  endDate = parseDate (endTime st)
              in if dateGe startDate endDate then
                   (db, st\<lparr>ecError := Some ''End time must be after start time''\<rparr>)
                 else
                   (let st1 = st\<lparr>ecLoading := True, ecError := None\<rparr>;
                        eventData =
                          \<lparr>eTitle = title st,
                           eDescription = description st,
                           eStartTime = startDate,
                           eEndTime = endDate,
                           createdBy = id' up,
                           isPublic = ecIsPublic st,
                           maxParticipants =
                             (case ecMaxParticipants st of
                                Some n \<Rightarrow> if n = 0 then None else Some n
                              | None \<Rightarrow> None),
                           eParticipants = [id' up],
                           eJitsiRoomName = roomName,
                           eCreatedAt = srv,
                           eUpdatedAt = srv\<rparr>
                    in case w of
                         Throws e \<Rightarrow>
                           (db, st1\<lparr>ecError := Some ''Failed to create event. Please try again.'',
                                    ecLoading := False\<rparr>)
                       | Completes \<Rightarrow>
                           (db\<lparr>events := addDoc (events db) newId eventData\<rparr>,
                            st1\<lparr>ecNavigated := Some (''/events/'' @ newId)\<rparr>)))))"

section \<open>Recording (src/econnect/src/services/jitsi.ts, JitsiContainer.tsx)\<close>

text \<open>
  A promise settles once: \<open>resolve\<close> and \<open>reject\<close> change a pending promise only.
  \<open>startRecording\<close> (jitsi.ts, lines 112-134) runs the promise's executor: \<open>exec\<close> and \<open>add\<close>
  are the outcomes of \<open>api.executeCommand\<close> and \<open>api.addListener\<close>. What it leaves behind is
  the promise, whether the status listener is registered, the delay of the pending timer and
  the commands sent.
\<close>

datatype promise = Pending | Fulfilled | Rejected thrown

definition resolve :: "promise \<Rightarrow> promise" where
  "resolve p = (case p of Pending \<Rightarrow> Fulfilled | _ \<Rightarrow> p)"

definition reject :: "thrown \<Rightarrow> promise \<Rightarrow> promise" where
  "reject e p = (case p of Pending \<Rightarrow> Rejected e | _ \<Rightarrow> p)"

record Recorder =
  promise :: promise
  statusListener :: bool
  timeout :: "nat option"
  executed :: "(string \<times> string) list"

definition startRecording :: "transport \<Rightarrow> transport \<Rightarrow> Recorder" where
  "startRecording exec add =
     (case exec of
        Throws e \<Rightarrow>
          \<lparr>promise = reject e Pending, statusListener = False, timeout = None, executed = []\<rparr>
      | Completes \<Rightarrow>
          (case add of
             Throws e \<Rightarrow>
               \<lparr>promise = reject e Pending, statusListener = False, timeout = None,
                executed = [(''startRecording'', ''file'')]\<rparr>
           | Completes \<Rightarrow>
               \<lparr>promise = Pending, statusListener = True, timeout = Some 10000,
                executed = [(''startRecording'', ''file'')]\<rparr>))"

text \<open>
  The callbacks the event loop runs afterwards: the status listener on each
  \<open>recordingStatusChanged\<close> event, the timer's callback when the delay has passed. The
  conference's events are given with their arrival time in milliseconds after the call; an
  event that arrives before the delay has passed is dispatched before the timer's callback.
\<close>

datatype task = RecordingStatusChanged bool | TimerFired

fun runTask :: "task \<Rightarrow> Recorder \<Rightarrow> Recorder" where
  "runTask (RecordingStatusChanged on) r =
     (if statusListener r \<and> on then r\<lparr>promise := resolve (promise r)\<rparr> else r)"
| "runTask TimerFired r =
     r\<lparr>promise := reject (JsError ''Recording start timeout'') (promise r), timeout := None\<rparr>"

definition agenda :: "nat option \<Rightarrow> (nat \<times> bool) list \<Rightarrow> task list" where
  "agenda tmo evs =
     (case tmo of
        None \<Rightarrow> map (\<lambda>(t, on). RecordingStatusChanged on) evs
      | Some d \<Rightarrow>
          map (\<lambda>(t, on). RecordingStatusChanged on) (filter (\<lambda>(t, on). t < d) evs)
          @ [TimerFired]
          @ map (\<lambda>(t, on). RecordingStatusChanged on) (filter (\<lambda>(t, on). \<not> t < d) evs))"

definition eventLoop :: "Recorder \<Rightarrow> (nat \<times> bool) list \<Rightarrow> Recorder" where
  "eventLoop r evs = foldl (\<lambda>r t. runTask t r) r (agenda (timeout r) evs)"

text \<open>\<open>handleStartRecording\<close> (JitsiContainer.tsx, lines 59-72); \<open>jitsiAPI\<close> is the hook's handle.\<close>

record JitsiContainerState =
  isRecording :: bool
  recordingError :: "string option"

definition handleStartRecording ::
  "nat option \<Rightarrow> transport \<Rightarrow> transport \<Rightarrow> (nat \<times> bool) list \<Rightarrow> JitsiContainerState \<Rightarrow>
   JitsiContainerState"
where
  "handleStartRecording jitsiAPI exec add evs st =
     (case jitsiAPI of
        None \<Rightarrow> st
      | Some api \<Rightarrow>
          (let st1 = st\<lparr>recordingError := None\<rparr>
           in case promise (eventLoop (startRecording exec add) evs) of
                Fulfilled \<Rightarrow> st1\<lparr>isRecording := True\<rparr>
              | Rejected e \<Rightarrow>
                  st1\<lparr>recordingError :=
                        Some (case e of JsError m \<Rightarrow> m | NonError \<Rightarrow> ''Failed to start recording'')\<rparr>
              | Pending \<Rightarrow> st1))"

section \<open>useJitsi (src/unnamed/part_000)\<close>

text \<open>
  A callback is identified by its reference (a number). The API objects ever created are kept
  in a list; a handle is an index into it. The hook's state is its three \<open>useState\<close> cells.
\<close>

record UseJitsiProps =
  roomName :: string
  isHostProp :: bool
  onParticipantJoined :: "nat option"
  onParticipantLeft :: "nat option"
  onVideoConferenceJoined :: "nat option"
  onVideoConferenceLeft :: "nat option"

record JitsiMeetExternalAPI =
  apiRoomName :: string
  listeners :: "(string \<times> nat) list"
  disposed :: bool

record UseJitsiState =
  jitsiAPI :: "nat option"
  isLoading :: bool
  ujError :: "string option"

definition useJitsi_init :: UseJitsiState where
  "useJitsi_init = \<lparr>jitsiAPI = None, isLoading = True, ujError = None\<rparr>"

definition addListener :: "string \<Rightarrow> nat \<Rightarrow> JitsiMeetExternalAPI \<Rightarrow> JitsiMeetExternalAPI" where
  "addListener ev cb api = api\<lparr>listeners := listeners api @ [(ev, cb)]\<rparr>"

definition removeListener :: "string \<Rightarrow> nat \<Rightarrow> JitsiMeetExternalAPI \<Rightarrow> JitsiMeetExternalAPI" where
  "removeListener ev cb api = api\<lparr>listeners := remove1 (ev, cb) (listeners api)\<rparr>"

definition dispose :: "JitsiMeetExternalAPI \<Rightarrow> JitsiMeetExternalAPI" where
  "dispose api = api\<lparr>disposed := True\<rparr>"

definition onApi ::
  "nat \<Rightarrow> (JitsiMeetExternalAPI \<Rightarrow> JitsiMeetExternalAPI) \<Rightarrow> JitsiMeetExternalAPI list \<Rightarrow>
   JitsiMeetExternalAPI list" where
  "onApi h f apis = (if h < length apis then apis[h := f (apis ! h)] else apis)"

text \<open>The handlers that are passed in, in the order of lines 213-227 (and of lines 249-263).\<close>

definition eventHandlers :: "UseJitsiProps \<Rightarrow> (string \<times> nat) list" where
  "eventHandlers props =
     (case onParticipantJoined props of Some cb \<Rightarrow> [(''participantJoined'', cb)] | None \<Rightarrow> [])
     @ (case onParticipantLeft props of Some cb \<Rightarrow> [(''participantLeft'', cb)] | None \<Rightarrow> [])
     @ (case onVideoConferenceJoined props of
          Some cb \<Rightarrow> [(''videoConferenceJoined'', cb)] | None \<Rightarrow> [])
     @ (case onVideoConferenceLeft props of
          Some cb \<Rightarrow> [(''videoConferenceLeft'', cb)] | None \<Rightarrow> [])"

definition errorMessage :: "thrown \<Rightarrow> string" where
  "errorMessage e = (case e of JsError m \<Rightarrow> m | NonError \<Rightarrow> ''Failed to initialize Jitsi'')"

text \<open>
  The cleanup function an effect returns is a closure: it holds the values its render had,
  among them the \<open>jitsiAPI\<close> state cell as it was when the effect was set up.
\<close>

record Cleanup =
  capturedAPI :: "nat option"
  capturedProps :: UseJitsiProps

text \<open>
  The effect (lines 145-278): \<open>rendered\<close> is the state of the
  render that set the effect up, \<open>containerMounted\<close> says whether \<open>containerRef.current\<close> is
  set, \<open>tok\<close> and \<open>ini\<close> are the outcomes of \<open>generateJitsiToken\<close> and \<open>initJitsiMeetAPI\<close>.
  The result is the API objects and the hook's state once \<open>initJitsi\<close> has run, and the
  cleanup closure (none on the early return).
\<close>

definition useJitsi_effect ::
  "UseJitsiProps \<Rightarrow> UseJitsiState \<Rightarrow> bool \<Rightarrow> User option \<Rightarrow> transport \<Rightarrow> transport \<Rightarrow>
   JitsiMeetExternalAPI list \<times> UseJitsiState \<Rightarrow>
   (JitsiMeetExternalAPI list \<times> UseJitsiState) \<times> Cleanup option"
where
  "useJitsi_effect props rendered containerMounted userProfile tok ini w =
     (if \<not> containerMounted \<or> userProfile = None then (w, None)
      else
        (let apis = fst w;
             st1 = (snd w)\<lparr>isLoading := True, ujError := None\<rparr>;
             cleanup = \<lparr>capturedAPI = jitsiAPI rendered, capturedProps = props\<rparr>
         in case tok of
              Throws e \<Rightarrow>
                ((apis, st1\<lparr>ujError := Some (errorMessage e), isLoading := False\<rparr>), Some cleanup)
            | Completes \<Rightarrow>
                (case ini of
                   Throws e \<Rightarrow>
                     ((apis, st1\<lparr>ujError := Some (errorMessage e), isLoading := False\<rparr>),
                      Some cleanup)
                 | Completes \<Rightarrow>
                     (let api = foldl (\<lambda>a (ev, cb). addListener ev cb a)
                                  \<lparr>apiRoomName = roomName props, listeners = [],
                                   disposed = False\<rparr>
                                  (eventHandlers props)
                      in ((apis @ [api],
                           st1\<lparr>jitsiAPI := Some (length apis), isLoading := False\<rparr>),
                          Some cleanup)))))"

text \<open>The cleanup function (lines 246-269), run with the values its closure holds.\<close>

definition runCleanup ::
  "Cleanup \<Rightarrow> JitsiMeetExternalAPI list \<times> UseJitsiState \<Rightarrow>
   JitsiMeetExternalAPI list \<times> UseJitsiState"
where
  "runCleanup c w =
     (case capturedAPI c of
        None \<Rightarrow> w
      | Some h \<Rightarrow>
          (onApi h (\<lambda>api. dispose (foldl (\<lambda>a (ev, cb). removeListener ev cb a) api
                                     (eventHandlers (capturedProps c))))
             (fst w),
           (snd w)\<lparr>jitsiAPI := None\<rparr>))"

text \<open>
  A session from mount to unmount with unchanged props: the effect runs once, on the first
  render, \<open>initJitsi\<close> completes, and unmounting runs that effect's cleanup.
\<close>

definition mountThenUnmount ::
  "UseJitsiProps \<Rightarrow> User option \<Rightarrow> JitsiMeetExternalAPI list \<times> UseJitsiState" where
  "mountThenUnmount props userProfile =
     (case useJitsi_effect props useJitsi_init True userProfile Completes Completes
             ([], useJitsi_init) of
        (w, None) \<Rightarrow> w
      | (w, Some c) \<Rightarrow> runCleanup c w)"

text \<open>
  A session in which the props change once (a handler is passed with a new reference): the
  first effect's cleanup runs, the effect runs again from the re-rendered state, and
  unmounting runs the second effect's cleanup.
\<close>

definition rerenderThenUnmount ::
  "UseJitsiProps \<Rightarrow> UseJitsiProps \<Rightarrow> User option \<Rightarrow>
   JitsiMeetExternalAPI list \<times> UseJitsiState" where
  "rerenderThenUnmount props props2 userProfile =
     (case useJitsi_effect props useJitsi_init True userProfile Completes Completes
             ([], useJitsi_init) of
        (w1, c1) \<Rightarrow>
          (case useJitsi_effect props2 (snd w1) True userProfile Completes Completes
                  (case c1 of None \<Rightarrow> w1 | Some c \<Rightarrow> runCleanup c w1) of
             (w2, None) \<Rightarrow> w2
           | (w2, Some c2) \<Rightarrow> runCleanup c2 w2))"

section \<open>Invariants and example data\<close>

text \<open>Every meeting record lists a user id at most once.\<close>

definition onePerUser :: "Firestore \<Rightarrow> bool" where
  "onePerUser db = (\<forall>(k, m) \<in> set (meetings db). distinct (map userId (mParticipants m)))"

text \<open>The ids of the tables of an event that list a user.\<close>

definition seatedAt :: "string \<Rightarrow> string \<Rightarrow> Firestore \<Rightarrow> string list" where
  "seatedAt eventId u db =
     map fst (filter (\<lambda>(k, t). tEventId t = eventId \<and> u \<in> set (tParticipants t))
                (virtualTables db))"

text \<open>
  A capacity that is a positive whole number, and the property that no table with such a
  capacity lists more participants than it.
\<close>

definition positiveWhole :: "rat \<Rightarrow> bool" where
  "positiveWhole c = (0 < c \<and> of_int \<lfloor>c\<rfloor> = c)"

definition withinCapacity :: "Firestore \<Rightarrow> bool" where
  "withinCapacity db =
     list_all (\<lambda>(k, t). case capacity t of
                          None \<Rightarrow> True
                        | Some c \<Rightarrow> positiveWhole c \<longrightarrow> of_nat (length (tParticipants t)) \<le> c)
       (virtualTables db)"

text \<open>Join attempts one after the other, each by a freshly mounted component.\<close>

type_synonym attempt =
  "string \<times> FirebaseUser \<times> string \<times> date \<times> transport \<times> transport \<times> transport \<times> transport"

fun joinAttempts :: "attempt list \<Rightarrow> Firestore \<Rightarrow> Firestore" where
  "joinAttempts [] db = db"
| "joinAttempts ((eventId, cu, tid, srv, q, ul, w1, w2) # as) db =
     joinAttempts as (fst (joinAttempt eventId cu tid srv q ul w1 w2 db))"

definition alice :: FirebaseUser where
  "alice = \<lparr>uid = ''alice'', fbEmail = Some ''alice@example.org''\<rparr>"

definition bob :: FirebaseUser where
  "bob = \<lparr>uid = ''bob'', fbEmail = None\<rparr>"

definition carol :: FirebaseUser where
  "carol = \<lparr>uid = ''carol'', fbEmail = None\<rparr>"

definition aliceProfile :: User where
  "aliceProfile = \<lparr>id' = ''alice'', email = ''alice@example.org'', displayName = ''Alice'',
                    photoURL = None, role = PlainUser\<rparr>"

definition standup :: Meeting where
  "standup = \<lparr>mEventId = ''e1'', mTitle = ''Standup'', mStartTime = 100, mEndTime = None,
               hostId = ''alice'',
               mParticipants = [\<lparr>userId = ''bob'', pDisplayName = ''Bob'', pRole = Viewer,
                                 joinTime = 110, leaveTime = None\<rparr>],
               mJitsiRoomName = ''event-100-abcde'', recordingEnabled = False,
               mUpdatedAt = 110\<rparr>"

definition launch :: Event where
  "launch = \<lparr>eTitle = ''Launch'', eDescription = ''Product launch'', eStartTime = Some 100,
              eEndTime = Some 3700, createdBy = ''alice'', isPublic = True,
              maxParticipants = None, eParticipants = [''alice'', ''bob''],
              eJitsiRoomName = ''event-100-abcde'', eCreatedAt = 90, eUpdatedAt = 95\<rparr>"

definition table1 :: VirtualTable where
  "table1 = \<lparr>tEventId = ''e1'', tName = ''Table 1'', capacity = Some 1,
              tParticipants = [''alice''], tCreatedAt = 90, tUpdatedAt = 90\<rparr>"

definition table2 :: VirtualTable where
  "table2 = \<lparr>tEventId = ''e1'', tName = ''Table 2'', capacity = Some 2,
              tParticipants = [''bob''], tCreatedAt = 91, tUpdatedAt = 91\<rparr>"

definition openTable :: VirtualTable where
  "openTable = \<lparr>tEventId = ''e1'', tName = ''Lounge'', capacity = Some 0,
                 tParticipants = [], tCreatedAt = 92, tUpdatedAt = 92\<rparr>"

definition demoParse :: "string \<Rightarrow> int option" where
  "demoParse s = (if s = ''2025-01-01T10:00'' then Some 100
                  else if s = ''2025-01-01T11:00'' then Some 3700 else None)"

definition demoForm :: EventCreationState where
  "demoForm = \<lparr>title = ''Launch'', description = ''Product launch'',
                startTime = ''2025-01-01T10:00'', endTime = ''2025-01-01T11:00'',
                ecIsPublic = True, ecMaxParticipants = None, ecLoading = False,
                ecError = None, ecNavigated = None\<rparr>"

definition demoProps :: UseJitsiProps where
  "demoProps = \<lparr>roomName = ''event-100-abcde'', isHostProp = True,
                 onParticipantJoined = Some 1, onParticipantLeft = Some 2,
                 onVideoConferenceJoined = Some 3, onVideoConferenceLeft = Some 4\<rparr>"

definition demoDb :: Firestore where
  "demoDb = \<lparr>users = [(''alice'', aliceProfile)],
              events = [(''e1'', launch)],
              meetings = [(''m1'', standup)],
              virtualTables = [(''t1'', table1), (''t2'', table2), (''t3'', openTable)]\<rparr>"

section \<open>Facts about the document store\<close>

lemma map_of_rewrite:
  "map_of (map (\<lambda>(k', v). if k' = k then (k', f v) else (k', v)) c) j =
     (if j = k then map_option f (map_of c k) else map_of c j)"
  by (induction c) auto

lemma getDoc_updateDoc:
  "updateDoc c k f = Some c' \<Longrightarrow>
   getDoc c' j = (if j = k then map_option f (getDoc c k) else getDoc c j)"
  by (auto simp: updateDoc_def getDoc_def map_of_rewrite split: if_splits)

lemma updateDoc_exists:
  "getDoc c k = Some v \<Longrightarrow> \<exists>c'. updateDoc c k f = Some c'"
  by (auto simp: updateDoc_def getDoc_def dest: map_of_SomeD intro: image_eqI [where x = "(k, v)"])

lemma updateDoc_set:
  "updateDoc c k f = Some c' \<Longrightarrow>
   set c' = (\<lambda>(j, v). if j = k then (j, f v) else (j, v)) ` set c"
proof -
  assume "updateDoc c k f = Some c'"
  then have "c' = map (\<lambda>(j, v). if j = k then (j, f v) else (j, v)) c"
    by (simp add: updateDoc_def split: if_splits)
  then show ?thesis by simp
qed

lemma awaitUpdateDoc_Some:
  "awaitUpdateDoc io c k f = Some c' \<Longrightarrow> io = Completes \<and> updateDoc c k f = Some c'"
  by (cases io) (auto simp: awaitUpdateDoc_def)

section \<open>Leaving and joining a meeting\<close>

lemma fetchMeeting_rendered:
  assumes "rendersRoom (snd (fetchMeeting (Some mid) (Some cu) up t0 s0 rd0 wr0 db0 MeetingRoom_init))"
  shows "mid \<noteq> [] \<and>
         (\<exists>m0. getDoc (meetings db0) mid = Some m0 \<and>
               isHost (snd (fetchMeeting (Some mid) (Some cu) up t0 s0 rd0 wr0 db0 MeetingRoom_init))
                 = (hostId m0 = uid cu))"
  using assms
  by (auto simp: fetchMeeting_def rendersRoom_def MeetingRoom_init_def Let_def
           split: if_splits option.splits transport.splits)

text \<open>
  C1. A user has opened the room of meeting \<open>mid\<close> (\<open>fetchMeeting\<close> ran on the store \<open>db0\<close> and
  the room is rendered). When the session ends, the store is \<open>db\<close>, in which the meeting
  record exists with the host it had. If the read and the write of \<open>handleMeetingEnd\<close> are
  delivered, then in the meeting record every entry of the leaving user has its \<open>leaveTime\<close>
  set to the current time and every other entry is as it was, and the meeting's \<open>endTime\<close> is
  set to the current time if the leaving user is the host and is left as it was otherwise.
\<close>

theorem handleMeetingEnd_marks_leave:
  assumes st: "st = snd (fetchMeeting (Some mid) (Some cu) up t0 s0 rd0 wr0 db0 MeetingRoom_init)"
      and rendered: "rendersRoom st"
      and m0: "getDoc (meetings db0) mid = Some m0"
      and m: "getDoc (meetings db) mid = Some m"
      and host: "hostId m = hostId m0"
  shows "\<exists>m'. getDoc (meetings (fst (handleMeetingEnd (Some mid) (Some cu) now srv
                                       Completes Completes db st))) mid = Some m'
           \<and> mParticipants m' =
               map (\<lambda>p. if userId p = uid cu then p\<lparr>leaveTime := Some now\<rparr> else p)
                   (mParticipants m)
           \<and> mEndTime m' = (if hostId m = uid cu then Some now else mEndTime m)"
proof -
  from fetchMeeting_rendered [OF rendered [unfolded st]] m0
  have mid: "mid \<noteq> []" and ih: "isHost st = (hostId m0 = uid cu)"
    by (auto simp: st)
  obtain ms where ms: "updateDoc (meetings db) mid
      (\<lambda>x. (if isHost st then x\<lparr>mEndTime := Some now\<rparr> else x)
             \<lparr>mParticipants := markLeft (uid cu) now (mParticipants m), mUpdatedAt := srv\<rparr>)
      = Some ms"
    using updateDoc_exists [OF m] by blast
  have run: "fst (handleMeetingEnd (Some mid) (Some cu) now srv Completes Completes db st)
               = db\<lparr>meetings := ms\<rparr>"
    using mid m ms by (simp add: handleMeetingEnd_def awaitUpdateDoc_def Let_def)
  show ?thesis
    using getDoc_updateDoc [OF ms, of mid] m ih host
    by (simp add: run markLeft_def)
qed

lemma demo_fetch_alice:
  "fetchMeeting (Some ''m1'') (Some alice) (Some aliceProfile) 120 121 Completes Completes
     demoDb MeetingRoom_init =
   (demoDb\<lparr>meetings :=
       [(''m1'', standup\<lparr>mParticipants :=
           mParticipants standup @
           [\<lparr>userId = ''alice'', pDisplayName = ''Alice'', pRole = Moderator, joinTime = 120,
             leaveTime = None\<rparr>],
           mUpdatedAt := 121\<rparr>)]\<rparr>,
    \<lparr>meeting = Some standup, loading = False, error = None, isHost = True, navigated = None\<rparr>)"
  by (simp add: fetchMeeting_def demoDb_def standup_def alice_def aliceProfile_def
        MeetingRoom_init_def getDoc_def awaitUpdateDoc_def updateDoc_def newParticipant_def
        participantName_def Let_def)

theorem handleMeetingEnd_marks_leave_witness:
  "rendersRoom (snd (fetchMeeting (Some ''m1'') (Some alice) (Some aliceProfile) 120 121
                       Completes Completes demoDb MeetingRoom_init))
   \<and> (\<exists>m'. getDoc (meetings (fst (handleMeetingEnd (Some ''m1'') (Some alice) 500 501
               Completes Completes
               (fst (fetchMeeting (Some ''m1'') (Some alice) (Some aliceProfile) 120 121
                       Completes Completes demoDb MeetingRoom_init))
               (snd (fetchMeeting (Some ''m1'') (Some alice) (Some aliceProfile) 120 121
                       Completes Completes demoDb MeetingRoom_init))))) ''m1'' = Some m'
         \<and> mParticipants m' =
             [\<lparr>userId = ''bob'', pDisplayName = ''Bob'', pRole = Viewer, joinTime = 110,
               leaveTime = None\<rparr>,
              \<lparr>userId = ''alice'', pDisplayName = ''Alice'', pRole = Moderator, joinTime = 120,
               leaveTime = Some 500\<rparr>]
         \<and> mEndTime m' = Some 500)"
proof -
  let ?st = "snd (fetchMeeting (Some ''m1'') (Some alice) (Some aliceProfile) 120 121
                    Completes Completes demoDb MeetingRoom_init)"
  let ?db = "fst (fetchMeeting (Some ''m1'') (Some alice) (Some aliceProfile) 120 121
                    Completes Completes demoDb MeetingRoom_init)"
  let ?m = "standup\<lparr>mParticipants :=
              mParticipants standup @
              [\<lparr>userId = ''alice'', pDisplayName = ''Alice'', pRole = Moderator, joinTime = 120,
                leaveTime = None\<rparr>],
              mUpdatedAt := 121\<rparr>"
  have r: "rendersRoom ?st"
    by (simp add: demo_fetch_alice rendersRoom_def)
  have m0: "getDoc (meetings demoDb) ''m1'' = Some standup"
    by (simp add: demoDb_def getDoc_def)
  have m: "getDoc (meetings ?db) ''m1'' = Some ?m"
    by (simp add: demo_fetch_alice getDoc_def)
  have h: "hostId ?m = hostId standup"
    by simp
  from handleMeetingEnd_marks_leave [OF refl r m0 m h, of 500 501]
  show ?thesis
    using r by (simp add: standup_def alice_def)
qed

lemma handleMeetingEnd_frame:
  "events (fst (handleMeetingEnd meetingId currentUser now srv rd wr db st)) = events db
   \<and> users (fst (handleMeetingEnd meetingId currentUser now srv rd wr db st)) = users db
   \<and> virtualTables (fst (handleMeetingEnd meetingId currentUser now srv rd wr db st))
       = virtualTables db"
  by (auto simp: handleMeetingEnd_def Let_def split: option.splits transport.splits)

text \<open>
  C6. \<open>handleMeetingEnd\<close> writes to the meetings collection only. Whatever the outcome of its
  calls, the events collection is what it was: an event whose participant list contains the
  users \<open>a\<close> and \<open>b\<close> before the handler runs is the same record, with both in its list,
  after it.
\<close>

theorem handleMeetingEnd_keeps_event_participants:
  assumes "getDoc (events db) eid = Some e"
      and "a \<in> set (eParticipants e)"
      and "b \<in> set (eParticipants e)"
  shows "events (fst (handleMeetingEnd meetingId currentUser now srv rd wr db st)) = events db
       \<and> (\<exists>e'. getDoc (events (fst (handleMeetingEnd meetingId currentUser now srv rd wr
                                        db st))) eid = Some e'
               \<and> a \<in> set (eParticipants e') \<and> b \<in> set (eParticipants e'))"
  using assms handleMeetingEnd_frame [of meetingId currentUser now srv rd wr db st]
  by simp

theorem handleMeetingEnd_keeps_event_participants_witness:
  "getDoc (events demoDb) ''e1'' = Some launch
   \<and> ''alice'' \<in> set (eParticipants launch) \<and> ''bob'' \<in> set (eParticipants launch)
   \<and> (\<exists>e'. getDoc (events (fst (handleMeetingEnd (Some ''m1'') (Some bob) 500 501
                                    Completes Completes demoDb MeetingRoom_init))) ''e1'' = Some e'
           \<and> ''alice'' \<in> set (eParticipants e') \<and> ''bob'' \<in> set (eParticipants e'))"
proof -
  have e: "getDoc (events demoDb) ''e1'' = Some launch"
    by (simp add: demoDb_def getDoc_def)
  have a: "''alice'' \<in> set (eParticipants launch)" and b: "''bob'' \<in> set (eParticipants launch)"
    by (simp_all add: launch_def)
  from handleMeetingEnd_keeps_event_participants [OF e a b]
  show ?thesis using e a b by blast
qed

section \<open>One entry per user\<close>

lemma fetchMeeting_db:
  "fst (fetchMeeting meetingId currentUser up now srv rd wr db st) = db \<or>
   (\<exists>k c m ms. meetingId = Some k \<and> currentUser = Some c \<and> k \<noteq> [] \<and> rd = Completes
      \<and> getDoc (meetings db) k = Some m
      \<and> \<not> list_ex (\<lambda>p. userId p = uid c) (mParticipants m)
      \<and> updateDoc (meetings db) k
            (\<lambda>x. x\<lparr>mParticipants := mParticipants m @ [newParticipant m c up now],
                    mUpdatedAt := srv\<rparr>) = Some ms
      \<and> fst (fetchMeeting meetingId currentUser up now srv rd wr db st) = db\<lparr>meetings := ms\<rparr>)"
  by (auto simp: fetchMeeting_def Let_def dest: awaitUpdateDoc_Some
           split: option.splits transport.splits)

lemma fetchMeeting_onePerUser:
  assumes inv: "onePerUser db"
  shows "onePerUser (fst (fetchMeeting meetingId currentUser up now srv rd wr db st))"
proof -
  consider (same) "fst (fetchMeeting meetingId currentUser up now srv rd wr db st) = db"
    | (wrote) k c m ms where "getDoc (meetings db) k = Some m"
        "\<not> list_ex (\<lambda>p. userId p = uid c) (mParticipants m)"
        "updateDoc (meetings db) k
            (\<lambda>x. x\<lparr>mParticipants := mParticipants m @ [newParticipant m c up now],
                    mUpdatedAt := srv\<rparr>) = Some ms"
        "fst (fetchMeeting meetingId currentUser up now srv rd wr db st) = db\<lparr>meetings := ms\<rparr>"
    using fetchMeeting_db [of meetingId currentUser up now srv rd wr db st] by blast
  then show ?thesis
  proof cases
    case same
    then show ?thesis using inv by simp
  next
    case wrote
    have "(k, m) \<in> set (meetings db)"
      using wrote(1) by (simp add: getDoc_def map_of_SomeD)
    then have d: "distinct (map userId (mParticipants m))"
      using inv by (auto simp: onePerUser_def)
    have new: "uid c \<notin> userId ` set (mParticipants m)"
      using wrote(2) by (auto simp: list_ex_iff)
    have "distinct (map userId (mParticipants m @ [newParticipant m c up now]))"
      using d new by (simp add: newParticipant_def)
    then show ?thesis
      using inv unfolding wrote(4) onePerUser_def
      by (auto simp: updateDoc_set [OF wrote(3)] split: if_splits)
  qed
qed

lemma joinAll_onePerUser: "onePerUser db \<Longrightarrow> onePerUser (joinAll mid vs db)"
  by (induction mid vs db rule: joinAll.induct) (simp_all add: fetchMeeting_onePerUser)

lemma fetchMeeting_listed:
  "getDoc (meetings db) mid = Some m \<Longrightarrow>
   list_ex (\<lambda>p. userId p = uid cu) (mParticipants m) \<Longrightarrow>
   fst (fetchMeeting (Some mid) (Some cu) up now srv rd wr db st) = db"
  by (auto simp: fetchMeeting_def Let_def split: transport.splits)

lemma fetchMeeting_appends:
  assumes m: "getDoc (meetings db) mid = Some m" and mid: "mid \<noteq> []"
      and new: "\<not> list_ex (\<lambda>p. userId p = uid cu) (mParticipants m)"
  shows "\<exists>m'. getDoc (meetings (fst (fetchMeeting (Some mid) (Some cu) up now srv
                                       Completes Completes db st))) mid = Some m'
           \<and> mParticipants m' = mParticipants m @ [newParticipant m cu up now]"
proof -
  obtain ms where ms: "updateDoc (meetings db) mid
            (\<lambda>x. x\<lparr>mParticipants := mParticipants m @ [newParticipant m cu up now],
                    mUpdatedAt := srv\<rparr>) = Some ms"
    using updateDoc_exists [OF m] by blast
  have "fst (fetchMeeting (Some mid) (Some cu) up now srv Completes Completes db st)
          = db\<lparr>meetings := ms\<rparr>"
    using m mid new ms by (simp add: fetchMeeting_def awaitUpdateDoc_def Let_def)
  then show ?thesis
    using getDoc_updateDoc [OF ms, of mid] m by simp
qed

text \<open>
  C2. Starting from a store in which every meeting record lists each user id at most once,
  any sequence of visits to a meeting's room (whatever the outcome of their calls) leaves a
  store with that property. For a meeting record that exists, the join (\<open>fetchMeeting\<close>)
  writes nothing at all when the visiting user is already listed; when the user is not listed
  and the calls are delivered it appends exactly one new entry for that user; and a second
  join by the same user after such a join changes nothing.
\<close>

theorem join_keeps_one_entry_per_user:
  assumes inv: "onePerUser db"
      and m: "getDoc (meetings db) mid = Some m"
      and mid: "mid \<noteq> []"
  shows "onePerUser (joinAll mid vs db)
       \<and> (list_ex (\<lambda>p. userId p = uid cu) (mParticipants m) \<longrightarrow>
            fst (fetchMeeting (Some mid) (Some cu) up now srv rd wr db st) = db)
       \<and> (\<not> list_ex (\<lambda>p. userId p = uid cu) (mParticipants m) \<longrightarrow>
            (\<exists>m'. getDoc (meetings (fst (fetchMeeting (Some mid) (Some cu) up now srv
                                          Completes Completes db st))) mid = Some m'
                 \<and> mParticipants m' = mParticipants m @ [newParticipant m cu up now]))
       \<and> fst (fetchMeeting (Some mid) (Some cu) up2 now2 srv2 rd2 wr2
                (fst (fetchMeeting (Some mid) (Some cu) up now srv Completes Completes db st))
                st2)
           = fst (fetchMeeting (Some mid) (Some cu) up now srv Completes Completes db st)"
proof -
  let ?db1 = "fst (fetchMeeting (Some mid) (Some cu) up now srv Completes Completes db st)"
  have again: "fst (fetchMeeting (Some mid) (Some cu) up2 now2 srv2 rd2 wr2 ?db1 st2) = ?db1"
  proof (cases "list_ex (\<lambda>p. userId p = uid cu) (mParticipants m)")
    case True
    then have "?db1 = db" using m by (rule fetchMeeting_listed [rotated])
    then show ?thesis using fetchMeeting_listed [OF m True] by simp
  next
    case False
    from fetchMeeting_appends [OF m mid False]
    obtain m' where m': "getDoc (meetings ?db1) mid = Some m'"
      "mParticipants m' = mParticipants m @ [newParticipant m cu up now]" by blast
    have "list_ex (\<lambda>p. userId p = uid cu) (mParticipants m')"
      by (simp add: m'(2) newParticipant_def)
    then show ?thesis using fetchMeeting_listed [OF m'(1)] by blast
  qed
  show ?thesis
    using joinAll_onePerUser [OF inv] fetchMeeting_listed [OF m]
      fetchMeeting_appends [OF m mid] again
    by blast
qed

theorem join_keeps_one_entry_per_user_witness:
  "onePerUser demoDb \<and> getDoc (meetings demoDb) ''m1'' = Some standup
   \<and> onePerUser (joinAll ''m1''
        [(alice, Some aliceProfile, 120, 121, Completes, Completes),
         (bob, None, 130, 131, Completes, Completes),
         (alice, Some aliceProfile, 140, 141, Completes, Completes)] demoDb)
   \<and> fst (fetchMeeting (Some ''m1'') (Some bob) None 130 131 Completes Completes demoDb
            MeetingRoom_init) = demoDb
   \<and> (\<exists>m'. getDoc (meetings (fst (fetchMeeting (Some ''m1'') (Some alice) (Some aliceProfile)
                                    120 121 Completes Completes demoDb MeetingRoom_init)))
             ''m1'' = Some m'
          \<and> map userId (mParticipants m') = [''bob'', ''alice''])"
proof -
  have inv: "onePerUser demoDb"
    by (simp add: onePerUser_def demoDb_def standup_def)
  have m: "getDoc (meetings demoDb) ''m1'' = Some standup"
    by (simp add: demoDb_def getDoc_def)
  have mid: "''m1'' \<noteq> []" by simp
  have listed: "list_ex (\<lambda>p. userId p = uid bob) (mParticipants standup)"
    by (simp add: standup_def bob_def)
  have new: "\<not> list_ex (\<lambda>p. userId p = uid alice) (mParticipants standup)"
    by (simp add: standup_def alice_def)
  note t = join_keeps_one_entry_per_user [OF inv m mid]
  have 1: "onePerUser (joinAll ''m1''
        [(alice, Some aliceProfile, 120, 121, Completes, Completes),
         (bob, None, 130, 131, Completes, Completes),
         (alice, Some aliceProfile, 140, 141, Completes, Completes)] demoDb)"
    using t by blast
  have 2: "fst (fetchMeeting (Some ''m1'') (Some bob) None 130 131 Completes Completes demoDb
            MeetingRoom_init) = demoDb"
    using t [of _ bob] listed by blast
  have 3: "\<exists>m'. getDoc (meetings (fst (fetchMeeting (Some ''m1'') (Some alice)
                   (Some aliceProfile) 120 121 Completes Completes demoDb MeetingRoom_init)))
             ''m1'' = Some m'
          \<and> mParticipants m' = mParticipants standup
               @ [newParticipant standup alice (Some aliceProfile) 120]"
    using t [of _ alice] new by blast
  then have 4: "\<exists>m'. getDoc (meetings (fst (fetchMeeting (Some ''m1'') (Some alice)
                   (Some aliceProfile) 120 121 Completes Completes demoDb MeetingRoom_init)))
             ''m1'' = Some m'
          \<and> map userId (mParticipants m') = [''bob'', ''alice'']"
    by (auto simp: standup_def newParticipant_def alice_def)
  show ?thesis using inv m 1 2 4 by blast
qed

section \<open>Virtual tables: joining\<close>

lemma updateDoc_keys:
  "updateDoc c k f = Some c' \<Longrightarrow> map fst c' = map fst c"
  by (auto simp: updateDoc_def split: if_splits)

lemma updateDoc_present:
  "(k, v) \<in> set c \<Longrightarrow> \<exists>c'. updateDoc c k f = Some c'"
  by (auto simp: updateDoc_def intro: image_eqI [where x = "(k, v)"])

lemma in_set_rewrite:
  "(j, v) \<in> set (map (\<lambda>(k', v). if k' = k then (k', f v) else (k', v)) c) \<longleftrightarrow>
     (\<exists>v0. (j, v0) \<in> set c \<and> v = (if j = k then f v0 else v0))"
proof (induction c)
  case Nil
  show ?case by simp
next
  case (Cons x c)
  obtain a b where x: "x = (a, b)" by (cases x)
  show ?case
    unfolding x list.map set_simps insert_iff Cons.IH
    by (cases "a = k") (auto split: if_splits)
qed

lemma in_updateDoc:
  assumes "updateDoc c k f = Some c'"
  shows "(j, v) \<in> set c' \<longleftrightarrow> (\<exists>v0. (j, v0) \<in> set c \<and> v = (if j = k then f v0 else v0))"
proof -
  from assms have "c' = map (\<lambda>(k', v). if k' = k then (k', f v) else (k', v)) c"
    by (simp add: updateDoc_def split: if_splits)
  then show ?thesis by (simp only: in_set_rewrite)
qed

lemma set_seatedAt:
  "k \<in> set (seatedAt ev u db) \<longleftrightarrow>
     (\<exists>t. (k, t) \<in> set (virtualTables db) \<and> tEventId t = ev \<and> u \<in> set (tParticipants t))"
  by (force simp: seatedAt_def)

lemma find_Some_set: "find P xs = Some x \<Longrightarrow> x \<in> set xs \<and> P x"
  by (auto simp: find_Some_iff)

lemma fetchTables_ok:
  assumes "ev \<noteq> []"
  shows "fetchTables ev (Some cu) Completes Completes db VirtualTables_init =
           VirtualTables_init
             \<lparr>tables := tablesQuery ev db,
              usersData := lookupUsers db (userIdsOf (tablesQuery ev db)),
              joinedTable := find (\<lambda>(k, t). uid cu \<in> set (tParticipants t)) (tablesQuery ev db),
              vtLoading := False\<rparr>"
  using assms
  by (simp add: fetchTables_def Let_def VirtualTables_init_def split: option.splits)

text \<open>
  C3. A user is listed by exactly one table of the event, \<open>oid\<close>. A freshly mounted component
  loads the tables and the user picks another table \<open>nid\<close> of the event that is not full.
  When both writes are delivered, the store is the result of removing the user from table
  \<open>oid\<close> and then adding the user to table \<open>nid\<close>, and afterwards the user is listed by
  exactly one table of the event, \<open>nid\<close>, which is also the component's joined table. The
  removal is the first write and the addition the second: when the first write fails nothing
  is written at all (whatever would become of the second), and when the first is delivered
  and the second fails the store is the one after the removal alone, in which no table of
  the event lists the user. Both failures leave the error "Failed to join table".
\<close>

theorem joinTable_moves_user:
  assumes ev: "ev \<noteq> []"
      and seated: "set (seatedAt ev (uid cu) db) = {oid}"
      and differs: "nid \<noteq> oid"
      and target: "find (\<lambda>(k, t). k = nid) (tablesQuery ev db) = Some (nid, new)"
      and room: "\<not> tableFull new"
  shows "\<exists>c1. updateDoc (virtualTables db) oid
                 (\<lambda>t. t\<lparr>tParticipants := arrayRemove (uid cu) (tParticipants t),
                         tUpdatedAt := srv\<rparr>) = Some c1
            \<and> updateDoc c1 nid
                 (\<lambda>t. t\<lparr>tParticipants := arrayUnion (uid cu) (tParticipants t),
                         tUpdatedAt := srv\<rparr>)
                = Some (virtualTables (fst (joinAttempt ev cu nid srv Completes Completes
                                              Completes Completes db)))
            \<and> set (seatedAt ev (uid cu)
                     (fst (joinAttempt ev cu nid srv Completes Completes Completes Completes db)))
                = {nid}
            \<and> joinedTable (snd (joinAttempt ev cu nid srv Completes Completes Completes
                                   Completes db)) = Some (nid, new)
            \<and> fst (joinAttempt ev cu nid srv Completes Completes (Throws e1) w2 db) = db
            \<and> vtError (snd (joinAttempt ev cu nid srv Completes Completes (Throws e1) w2 db))
                = Some ''Failed to join table''
            \<and> virtualTables (fst (joinAttempt ev cu nid srv Completes Completes Completes
                                     (Throws e2) db)) = c1
            \<and> set (seatedAt ev (uid cu)
                     (fst (joinAttempt ev cu nid srv Completes Completes Completes
                             (Throws e2) db))) = {}
            \<and> vtError (snd (joinAttempt ev cu nid srv Completes Completes Completes
                                (Throws e2) db)) = Some ''Failed to join table''"
proof -
  let ?u = "uid cu"
  let ?rm = "\<lambda>t. t\<lparr>tParticipants := arrayRemove ?u (tParticipants t), tUpdatedAt := srv\<rparr>"
  let ?ad = "\<lambda>t. t\<lparr>tParticipants := arrayUnion ?u (tParticipants t), tUpdatedAt := srv\<rparr>"
  let ?st = "fetchTables ev (Some cu) Completes Completes db VirtualTables_init"
  have st: "?st = VirtualTables_init
             \<lparr>tables := tablesQuery ev db,
              usersData := lookupUsers db (userIdsOf (tablesQuery ev db)),
              joinedTable := find (\<lambda>(k, t). ?u \<in> set (tParticipants t)) (tablesQuery ev db),
              vtLoading := False\<rparr>"
    by (rule fetchTables_ok [OF ev])
  \<comment> \<open>the table the component finds the user at is the old one\<close>
  have "oid \<in> set (seatedAt ev ?u db)" using seated by simp
  then obtain old where old: "(oid, old) \<in> set (virtualTables db)" "tEventId old = ev"
      "?u \<in> set (tParticipants old)"
    by (auto simp: set_seatedAt)
  then have "\<exists>x \<in> set (tablesQuery ev db). (\<lambda>(k, t). ?u \<in> set (tParticipants t)) x"
    by (force simp: tablesQuery_def)
  then obtain jk jt where j: "find (\<lambda>(k, t). ?u \<in> set (tParticipants t)) (tablesQuery ev db)
      = Some (jk, jt)"
    by (cases "find (\<lambda>(k, t). ?u \<in> set (tParticipants t)) (tablesQuery ev db)")
       (auto simp: find_None_iff)
  from find_Some_set [OF j] have "jk \<in> set (seatedAt ev ?u db)"
    by (auto simp: set_seatedAt tablesQuery_def)
  then have jk: "jk = oid" using seated by simp
  \<comment> \<open>the two writes\<close>
  obtain c1 where c1: "updateDoc (virtualTables db) oid ?rm = Some c1"
    using updateDoc_present [OF old(1)] by blast
  from find_Some_set [OF target] have new: "(nid, new) \<in> set (virtualTables db)" "tEventId new = ev"
    by (auto simp: tablesQuery_def)
  have in1: "(nid, new) \<in> set c1"
    unfolding in_updateDoc [OF c1] using new(1) differs by (intro exI [where x = new]) simp
  obtain c2 where c2: "updateDoc c1 nid ?ad = Some c2"
    using updateDoc_present [OF in1, of ?ad] by blast
  have grid: "rendersGrid ?st"
    unfolding st rendersGrid_def by (simp add: VirtualTables_init_def)
  have tabs: "tables ?st = tablesQuery ev db"
    unfolding st by simp
  have jt: "joinedTable ?st = Some (oid, jt)"
    unfolding st using j jk by simp
  have sel: "selectedTable (handleTableSelect (nid, new) ?st) = Some (nid, new)"
    "joinedTable (handleTableSelect (nid, new) ?st) = Some (oid, jt)"
    using jt by (simp_all add: handleTableSelect_def)
  have writes: "joinWrites cu (nid, new) srv Completes Completes db
                  (handleTableSelect (nid, new) ?st) =
          (db\<lparr>virtualTables := c2\<rparr>,
           (handleTableSelect (nid, new) ?st)
             \<lparr>joinedTable := Some (nid, new), selectedTable := None, showJitsi := True\<rparr>)"
    unfolding joinWrites_def awaitUpdateDoc_def sel using c1 c2 by simp
  have join: "handleJoinTable (Some cu) srv a b db (handleTableSelect (nid, new) ?st) =
              joinWrites cu (nid, new) srv a b db (handleTableSelect (nid, new) ?st)" for a b
    unfolding handleJoinTable_def sel using room by simp
  have attempt: "joinAttempt ev cu nid srv Completes Completes a b db =
                   joinWrites cu (nid, new) srv a b db (handleTableSelect (nid, new) ?st)" for a b
    unfolding joinAttempt_def Let_def using grid target by (simp add: tabs join)
  have run: "joinAttempt ev cu nid srv Completes Completes Completes Completes db =
          (db\<lparr>virtualTables := c2\<rparr>,
           (handleTableSelect (nid, new) ?st)
             \<lparr>joinedTable := Some (nid, new), selectedTable := None, showJitsi := True\<rparr>)"
    unfolding attempt writes by simp
  \<comment> \<open>a failing write\<close>
  have fail1: "joinAttempt ev cu nid srv Completes Completes (Throws e1) w2 db =
          (db, (handleTableSelect (nid, new) ?st)\<lparr>vtError := Some ''Failed to join table''\<rparr>)"
    unfolding attempt joinWrites_def awaitUpdateDoc_def sel by simp
  have fail2: "joinAttempt ev cu nid srv Completes Completes Completes (Throws e2) db =
          (db\<lparr>virtualTables := c1\<rparr>,
           (handleTableSelect (nid, new) ?st)\<lparr>vtError := Some ''Failed to join table''\<rparr>)"
    unfolding attempt joinWrites_def awaitUpdateDoc_def sel using c1 by simp
  \<comment> \<open>membership afterwards\<close>
  have only: "k = oid" if "(k, t) \<in> set (virtualTables db)" "tEventId t = ev"
      "?u \<in> set (tParticipants t)" for k t
  proof -
    have "k \<in> set (seatedAt ev ?u db)"
      unfolding set_seatedAt using that by blast
    then show ?thesis unfolding seated by simp
  qed
  have "set (seatedAt ev ?u (db\<lparr>virtualTables := c2\<rparr>)) = {nid}"
  proof (rule set_eqI)
    fix k
    show "k \<in> set (seatedAt ev ?u (db\<lparr>virtualTables := c2\<rparr>)) \<longleftrightarrow> k \<in> {nid}"
    proof
      assume "k \<in> set (seatedAt ev ?u (db\<lparr>virtualTables := c2\<rparr>))"
      then obtain t2 where t2: "(k, t2) \<in> set c2" "tEventId t2 = ev" "?u \<in> set (tParticipants t2)"
        unfolding set_seatedAt by auto
      from t2(1) obtain t1 where t1: "(k, t1) \<in> set c1" "t2 = (if k = nid then ?ad t1 else t1)"
        unfolding in_updateDoc [OF c2] by blast
      from t1(1) obtain t0 where t0: "(k, t0) \<in> set (virtualTables db)"
          "t1 = (if k = oid then ?rm t0 else t0)"
        unfolding in_updateDoc [OF c1] by blast
      show "k \<in> {nid}"
      proof (rule ccontr)
        assume "k \<notin> {nid}"
        then have kn: "k \<noteq> nid" by simp
        show False
        proof (cases "k = oid")
          case True
          then have "t2 = ?rm t0" using t1(2) t0(2) kn by simp
          with t2(3) show False by (simp add: arrayRemove_def)
        next
          case False
          then have "t2 = t0" using t1(2) t0(2) kn by simp
          with t2 t0(1) have "k = oid" using only by blast
          with False show False by simp
        qed
      qed
    next
      assume "k \<in> {nid}"
      then have k: "k = nid" by simp
      have "(nid, ?ad new) \<in> set c2"
        unfolding in_updateDoc [OF c2] using in1 by (intro exI [where x = new]) simp
      moreover have "tEventId (?ad new) = ev" using new(2) by simp
      moreover have "?u \<in> set (tParticipants (?ad new))" by (simp add: arrayUnion_def)
      ultimately show "k \<in> set (seatedAt ev ?u (db\<lparr>virtualTables := c2\<rparr>))"
        unfolding k set_seatedAt by (intro exI [where x = "?ad new"]) simp
    qed
  qed
  moreover have "set (seatedAt ev ?u (db\<lparr>virtualTables := c1\<rparr>)) = {}"
  proof (rule equals0I)
    fix k
    assume "k \<in> set (seatedAt ev ?u (db\<lparr>virtualTables := c1\<rparr>))"
    then obtain t1 where t1: "(k, t1) \<in> set c1" "tEventId t1 = ev" "?u \<in> set (tParticipants t1)"
      unfolding set_seatedAt by auto
    from t1(1) obtain t0 where t0: "(k, t0) \<in> set (virtualTables db)"
        "t1 = (if k = oid then ?rm t0 else t0)"
      unfolding in_updateDoc [OF c1] by blast
    show False
    proof (cases "k = oid")
      case True
      then have "t1 = ?rm t0" using t0(2) by simp
      with t1(3) show False by (simp add: arrayRemove_def)
    next
      case False
      then have "t1 = t0" using t0(2) by simp
      with t1 t0(1) have "k = oid" using only by blast
      with False show False by simp
    qed
  qed
  ultimately show ?thesis
    unfolding run fail1 fail2 using c1 c2 by simp
qed


lemma whole_step:
  assumes "positiveWhole c" and "\<not> c \<le> of_nat n"
  shows "of_nat (Suc n) \<le> c"
proof -
  obtain z :: int where z: "c = of_int z"
    using assms(1) unfolding positiveWhole_def by metis
  have "(of_nat n :: rat) < of_int z" using assms(2) z by simp
  then have "(of_int (int n) :: rat) < of_int z" by simp
  then have "int n < z" by (simp only: of_int_less_iff)
  then have "int (Suc n) \<le> z" by simp
  then have "(of_int (int (Suc n)) :: rat) \<le> of_int z" by (simp only: of_int_le_iff)
  then show ?thesis unfolding z by simp
qed

lemma withinCapacity_iff:
  "withinCapacity db \<longleftrightarrow>
     (\<forall>k t c. (k, t) \<in> set (virtualTables db) \<longrightarrow> capacity t = Some c \<longrightarrow> positiveWhole c \<longrightarrow>
                of_nat (length (tParticipants t)) \<le> c)"
  unfolding withinCapacity_def list_all_iff
  by (auto split: option.splits)

lemma length_arrayRemove: "length (arrayRemove u xs) \<le> length xs"
  by (simp add: arrayRemove_def)

lemma length_arrayUnion: "length (arrayUnion u xs) \<le> Suc (length xs)"
  by (simp add: arrayUnion_def)

lemma distinct_keys_unique:
  "distinct (map fst c) \<Longrightarrow> (k, a) \<in> set c \<Longrightarrow> (k, b) \<in> set c \<Longrightarrow> a = b"
  by (metis eq_key_imp_eq_value)

lemma remove_keeps_capacity:
  assumes inv: "withinCapacity (db\<lparr>virtualTables := c\<rparr>)"
      and upd: "updateDoc c k
                  (\<lambda>t. t\<lparr>tParticipants := arrayRemove u (tParticipants t), tUpdatedAt := srv\<rparr>)
                = Some c'"
  shows "withinCapacity (db\<lparr>virtualTables := c'\<rparr>)"
  unfolding withinCapacity_iff
proof (intro allI impI)
  fix j t q
  assume jt: "(j, t) \<in> set (virtualTables (db\<lparr>virtualTables := c'\<rparr>))"
     and cap: "capacity t = Some q" and pw: "positiveWhole q"
  from jt have "(j, t) \<in> set c'" by simp
  then obtain t0 where t0: "(j, t0) \<in> set c"
      "t = (if j = k then t0\<lparr>tParticipants := arrayRemove u (tParticipants t0), tUpdatedAt := srv\<rparr>
            else t0)"
    unfolding in_updateDoc [OF upd] by blast
  have c0: "capacity t0 = Some q" using cap t0(2) by (simp split: if_splits)
  have "(of_nat (length (tParticipants t0)) :: rat) \<le> q"
    using inv t0(1) c0 pw unfolding withinCapacity_iff by simp
  moreover have "length (tParticipants t) \<le> length (tParticipants t0)"
    using t0(2) length_arrayRemove [of u "tParticipants t0"] by (simp split: if_splits)
  then have "(of_nat (length (tParticipants t)) :: rat) \<le> of_nat (length (tParticipants t0))"
    by (simp only: of_nat_le_iff)
  ultimately show "(of_nat (length (tParticipants t)) :: rat) \<le> q" by simp
qed

lemma add_keeps_capacity:
  assumes inv: "withinCapacity (db\<lparr>virtualTables := c\<rparr>)"
      and keys: "distinct (map fst c)"
      and seat: "(k, t1) \<in> set c"
      and room: "capacity t1 = capacity tbl" "length (tParticipants t1) \<le> length (tParticipants tbl)"
                "\<not> tableFull tbl"
      and upd: "updateDoc c k
                  (\<lambda>t. t\<lparr>tParticipants := arrayUnion u (tParticipants t), tUpdatedAt := srv\<rparr>)
                = Some c'"
  shows "withinCapacity (db\<lparr>virtualTables := c'\<rparr>)"
  unfolding withinCapacity_iff
proof (intro allI impI)
  fix j t q
  assume jt: "(j, t) \<in> set (virtualTables (db\<lparr>virtualTables := c'\<rparr>))"
     and cap: "capacity t = Some q" and pw: "positiveWhole q"
  from jt have "(j, t) \<in> set c'" by simp
  then obtain t0 where t0: "(j, t0) \<in> set c"
      "t = (if j = k then t0\<lparr>tParticipants := arrayUnion u (tParticipants t0), tUpdatedAt := srv\<rparr>
            else t0)"
    unfolding in_updateDoc [OF upd] by blast
  have c0: "capacity t0 = Some q" using cap t0(2) by (simp split: if_splits)
  show "(of_nat (length (tParticipants t)) :: rat) \<le> q"
  proof (cases "j = k")
    case False
    then have "t = t0" using t0(2) by simp
    then show ?thesis using inv t0(1) c0 pw unfolding withinCapacity_iff by simp
  next
    case True
    then have "t0 = t1" using distinct_keys_unique [OF keys] t0(1) seat by blast
    then have ct: "capacity tbl = Some q" using c0 room(1) by simp
    have "q \<noteq> 0" using pw by (auto simp: positiveWhole_def)
    then have "\<not> q \<le> of_nat (length (tParticipants tbl))"
      using room(3) ct by (simp add: tableFull_def)
    from whole_step [OF pw this]
    have *: "(of_nat (Suc (length (tParticipants tbl))) :: rat) \<le> q" .
    have "length (tParticipants t) \<le> Suc (length (tParticipants t1))"
      using True t0(2) \<open>t0 = t1\<close> length_arrayUnion [of u "tParticipants t1"] by simp
    then have "length (tParticipants t) \<le> Suc (length (tParticipants tbl))"
      using room(2) by simp
    then have "(of_nat (length (tParticipants t)) :: rat) \<le> of_nat (Suc (length (tParticipants tbl)))"
      by (simp only: of_nat_le_iff)
    with * show ?thesis by simp
  qed
qed


lemma joinWrites_keeps_capacity:
  assumes keys: "distinct (map fst (virtualTables db))"
      and inv: "withinCapacity db"
      and seat: "(tid, tbl) \<in> set (virtualTables db)"
      and room: "\<not> tableFull tbl"
  shows "withinCapacity (fst (joinWrites cu (tid, tbl) srv w1 w2 db st))
       \<and> distinct (map fst (virtualTables (fst (joinWrites cu (tid, tbl) srv w1 w2 db st))))"
proof -
  let ?rm = "\<lambda>t. t\<lparr>tParticipants := arrayRemove (uid cu) (tParticipants t), tUpdatedAt := srv\<rparr>"
  let ?ad = "\<lambda>t. t\<lparr>tParticipants := arrayUnion (uid cu) (tParticipants t), tUpdatedAt := srv\<rparr>"
  let ?first = "case joinedTable st of
                  Some (jid, jt) \<Rightarrow> awaitUpdateDoc w1 (virtualTables db) jid ?rm
                | None \<Rightarrow> Some (virtualTables db)"
  have same: "db\<lparr>virtualTables := virtualTables db\<rparr> = db" by simp
  show ?thesis
  proof (cases ?first)
    case None
    then have "fst (joinWrites cu (tid, tbl) srv w1 w2 db st) = db"
      by (simp add: joinWrites_def)
    then show ?thesis using keys inv by simp
  next
    case (Some c1)
    have c1: "withinCapacity (db\<lparr>virtualTables := c1\<rparr>) \<and> map fst c1 = map fst (virtualTables db)
              \<and> (\<exists>t1. (tid, t1) \<in> set c1 \<and> capacity t1 = capacity tbl
                      \<and> length (tParticipants t1) \<le> length (tParticipants tbl))"
    proof (cases "joinedTable st")
      case None
      then have "c1 = virtualTables db" using Some by simp
      then show ?thesis using inv seat same by auto
    next
      case (Some j)
      obtain jid jt where j: "j = (jid, jt)" by (cases j)
      have upd: "updateDoc (virtualTables db) jid ?rm = Some c1"
        using \<open>?first = Some c1\<close> Some j awaitUpdateDoc_Some by fastforce
      have 1: "withinCapacity (db\<lparr>virtualTables := c1\<rparr>)"
        using remove_keeps_capacity [OF _ upd, of db] inv same by simp
      have 2: "map fst c1 = map fst (virtualTables db)"
        by (rule updateDoc_keys [OF upd])
      have "(tid, if tid = jid then ?rm tbl else tbl) \<in> set c1"
        unfolding in_updateDoc [OF upd] using seat by blast
      moreover have "capacity (if tid = jid then ?rm tbl else tbl) = capacity tbl" by simp
      moreover have "length (tParticipants (if tid = jid then ?rm tbl else tbl))
                       \<le> length (tParticipants tbl)"
        using length_arrayRemove [of "uid cu" "tParticipants tbl"] by simp
      ultimately show ?thesis using 1 2 by blast
    qed
    then obtain t1 where t1: "(tid, t1) \<in> set c1" "capacity t1 = capacity tbl"
        "length (tParticipants t1) \<le> length (tParticipants tbl)" by blast
    have k1: "distinct (map fst c1)" using c1 keys by simp
    show ?thesis
    proof (cases "awaitUpdateDoc w2 c1 tid ?ad")
      case None
      then have "fst (joinWrites cu (tid, tbl) srv w1 w2 db st) = db\<lparr>virtualTables := c1\<rparr>"
        using Some by (simp add: joinWrites_def)
      then show ?thesis using c1 k1 by simp
    next
      case (Some c2)
      then have upd2: "updateDoc c1 tid ?ad = Some c2" using awaitUpdateDoc_Some by fastforce
      have "fst (joinWrites cu (tid, tbl) srv w1 w2 db st) = db\<lparr>virtualTables := c2\<rparr>"
        using \<open>?first = Some c1\<close> Some by (simp add: joinWrites_def)
      moreover have "withinCapacity (db\<lparr>virtualTables := c2\<rparr>)"
        using add_keeps_capacity [OF _ k1 t1(1) t1(2) t1(3) room upd2, of db] c1 by simp
      moreover have "distinct (map fst c2)"
        using updateDoc_keys [OF upd2] k1 by simp
      ultimately show ?thesis by simp
    qed
  qed
qed

lemma fetchTables_rendered:
  assumes "rendersGrid (fetchTables ev cuo q ul db VirtualTables_init)"
  shows "tables (fetchTables ev cuo q ul db VirtualTables_init) = tablesQuery ev db"
  using assms
  by (simp add: fetchTables_def rendersGrid_def VirtualTables_init_def Let_def
           split: if_splits transport.splits option.splits)

lemma joinAttempt_keeps_capacity:
  assumes keys: "distinct (map fst (virtualTables db))"
      and inv: "withinCapacity db"
  shows "withinCapacity (fst (joinAttempt ev cu tid srv q ul w1 w2 db))
       \<and> distinct (map fst (virtualTables (fst (joinAttempt ev cu tid srv q ul w1 w2 db))))"
proof -
  let ?st = "fetchTables ev (Some cu) q ul db VirtualTables_init"
  show ?thesis
  proof (cases "rendersGrid ?st")
    case False
    then have "fst (joinAttempt ev cu tid srv q ul w1 w2 db) = db"
      by (simp add: joinAttempt_def Let_def)
    then show ?thesis using keys inv by simp
  next
    case True
    note tabs = fetchTables_rendered [OF True]
    show ?thesis
    proof (cases "find (\<lambda>(k, t). k = tid) (tablesQuery ev db)")
      case None
      then have "fst (joinAttempt ev cu tid srv q ul w1 w2 db) = db"
        using True tabs by (simp add: joinAttempt_def Let_def)
      then show ?thesis using keys inv by simp
    next
      case (Some x)
      obtain k tbl where x: "x = (k, tbl)" by (cases x)
      from find_Some_set [OF Some] have seat: "(tid, tbl) \<in> set (virtualTables db)" and k: "k = tid"
        unfolding x by (auto simp: tablesQuery_def)
      have run: "joinAttempt ev cu tid srv q ul w1 w2 db =
                   handleJoinTable (Some cu) srv w1 w2 db (handleTableSelect (tid, tbl) ?st)"
        using True tabs Some x k by (simp add: joinAttempt_def Let_def)
      show ?thesis
      proof (cases "tableFull tbl")
        case True
        then have "fst (joinAttempt ev cu tid srv q ul w1 w2 db) = db"
          unfolding run by (simp add: handleJoinTable_def handleTableSelect_def)
        then show ?thesis using keys inv by simp
      next
        case False
        then have "joinAttempt ev cu tid srv q ul w1 w2 db =
                     joinWrites cu (tid, tbl) srv w1 w2 db (handleTableSelect (tid, tbl) ?st)"
          unfolding run by (simp add: handleJoinTable_def handleTableSelect_def)
        then show ?thesis
          using joinWrites_keeps_capacity [OF keys inv seat False] by simp
      qed
    qed
  qed
qed

lemma joinAttempts_keep_capacity:
  "distinct (map fst (virtualTables db)) \<Longrightarrow> withinCapacity db \<Longrightarrow>
   withinCapacity (joinAttempts as db) \<and> distinct (map fst (virtualTables (joinAttempts as db)))"
  by (induction as db rule: joinAttempts.induct) (simp_all add: joinAttempt_keeps_capacity)

lemma handleJoinTable_full:
  assumes "selectedTable st = Some (sid, sel)" and "tableFull sel"
  shows "handleJoinTable (Some cu) srv w1 w2 db st = (db, st\<lparr>vtError := Some ''This table is full''\<rparr>)"
  using assms by (simp add: handleJoinTable_def)

text \<open>
  C4 (amended). \<open>handleJoinTable\<close> fails with the capacity error when the selected table's
  capacity is present and not zero and the participant count of the component's copy of the
  table is at least the capacity; on that failure the store is returned as it was, so no
  participant list is modified. Under join attempts made one after the other, each by a
  freshly mounted component, on a store with unique table ids, every table whose capacity is
  a positive whole number and that lists no more participants than its capacity keeps doing
  so, whatever the outcome of the calls.
\<close>

theorem joinTable_capacity_guard:
  assumes keys: "distinct (map fst (virtualTables db))" and inv: "withinCapacity db"
  shows "(selectedTable st = Some (sid, sel) \<and> capacity sel = Some c \<and> c \<noteq> 0
            \<and> c \<le> of_nat (length (tParticipants sel)) \<longrightarrow>
          handleJoinTable (Some cu) srv w1 w2 db st
            = (db, st\<lparr>vtError := Some ''This table is full''\<rparr>))
       \<and> withinCapacity (joinAttempts as db)
       \<and> distinct (map fst (virtualTables (joinAttempts as db)))"
proof -
  have "handleJoinTable (Some cu) srv w1 w2 db st = (db, st\<lparr>vtError := Some ''This table is full''\<rparr>)"
    if "selectedTable st = Some (sid, sel)" "capacity sel = Some c" "c \<noteq> 0"
       "c \<le> of_nat (length (tParticipants sel))"
    using handleJoinTable_full [OF that(1)] that(2,3,4) by (simp add: tableFull_def)
  then show ?thesis
    using joinAttempts_keep_capacity [OF keys inv, of as] by blast
qed

text \<open>
  C10. When the selected table's capacity is absent or 0, the guard of \<open>handleJoinTable\<close> is
  false whatever the table's participant list is: the handler is the two membership writes,
  its result is never the table-full rejection, and (with no table to leave, the write
  delivered and the table in the store) the user is listed by the table afterwards.
\<close>

theorem joinTable_zero_capacity_never_full:
  assumes sel: "selectedTable st = Some (sid, sel)"
      and cap: "capacity sel = None \<or> capacity sel = Some 0"
  shows "\<not> tableFull sel
       \<and> handleJoinTable (Some cu) srv w1 w2 db st = joinWrites cu (sid, sel) srv w1 w2 db st
       \<and> snd (handleJoinTable (Some cu) srv w1 w2 db st)
            \<noteq> st\<lparr>vtError := Some ''This table is full''\<rparr>
       \<and> (joinedTable st = None \<longrightarrow> w2 = Completes \<longrightarrow> (sid, t) \<in> set (virtualTables db) \<longrightarrow>
            (\<exists>t'. (sid, t') \<in> set (virtualTables (fst (handleJoinTable (Some cu) srv w1 w2 db st)))
                 \<and> uid cu \<in> set (tParticipants t')))"
proof -
  let ?ad = "\<lambda>t. t\<lparr>tParticipants := arrayUnion (uid cu) (tParticipants t), tUpdatedAt := srv\<rparr>"
  have nf: "\<not> tableFull sel" using cap by (auto simp: tableFull_def)
  have eq: "handleJoinTable (Some cu) srv w1 w2 db st = joinWrites cu (sid, sel) srv w1 w2 db st"
    using sel nf by (simp add: handleJoinTable_def)
  have ne: "snd (joinWrites cu (sid, sel) srv w1 w2 db st) \<noteq> st\<lparr>vtError := Some ''This table is full''\<rparr>"
  proof
    assume a: "snd (joinWrites cu (sid, sel) srv w1 w2 db st) = st\<lparr>vtError := Some ''This table is full''\<rparr>"
    have "vtError (snd (joinWrites cu (sid, sel) srv w1 w2 db st)) = Some ''Failed to join table''
          \<or> selectedTable (snd (joinWrites cu (sid, sel) srv w1 w2 db st)) = None"
      by (simp add: joinWrites_def split: option.splits prod.splits)
    then show False unfolding a using sel by simp
  qed
  have wr: "\<exists>t'. (sid, t') \<in> set (virtualTables (fst (joinWrites cu (sid, sel) srv w1 w2 db st)))
                 \<and> uid cu \<in> set (tParticipants t')"
    if h: "joinedTable st = None" "w2 = Completes" "(sid, t) \<in> set (virtualTables db)"
  proof -
    obtain c2 where c2: "updateDoc (virtualTables db) sid ?ad = Some c2"
      using updateDoc_present [OF h(3), of ?ad] by blast
    have "fst (joinWrites cu (sid, sel) srv w1 w2 db st) = db\<lparr>virtualTables := c2\<rparr>"
      using h(1,2) c2 by (simp add: joinWrites_def awaitUpdateDoc_def)
    moreover have "(sid, ?ad t) \<in> set c2"
      unfolding in_updateDoc [OF c2] using h(3) by (intro exI [where x = t]) simp
    moreover have "uid cu \<in> set (tParticipants (?ad t))" by (simp add: arrayUnion_def)
    ultimately show ?thesis by (intro exI [where x = "?ad t"]) simp
  qed
  show ?thesis using nf eq ne wr unfolding eq by blast
qed

section \<open>Virtual tables: the example store\<close>

lemma demo_tablesQuery: "tablesQuery ''e1'' demoDb = virtualTables demoDb"
  by (simp add: tablesQuery_def demoDb_def table1_def table2_def openTable_def)

lemma demo_tables:
  "virtualTables demoDb = [(''t1'', table1), (''t2'', table2), (''t3'', openTable)]"
  by (simp add: demoDb_def)

theorem joinTable_moves_user_witness:
  "set (seatedAt ''e1'' (uid alice) demoDb) = {''t1''}
   \<and> find (\<lambda>(k, t). k = ''t2'') (tablesQuery ''e1'' demoDb) = Some (''t2'', table2)
   \<and> \<not> tableFull table2
   \<and> set (seatedAt ''e1'' (uid alice)
            (fst (joinAttempt ''e1'' alice ''t2'' 200 Completes Completes Completes Completes
                    demoDb))) = {''t2''}
   \<and> joinedTable (snd (joinAttempt ''e1'' alice ''t2'' 200 Completes Completes Completes
                          Completes demoDb)) = Some (''t2'', table2)
   \<and> fst (joinAttempt ''e1'' alice ''t2'' 200 Completes Completes (Throws NonError) Completes
            demoDb) = demoDb
   \<and> set (seatedAt ''e1'' (uid alice)
            (fst (joinAttempt ''e1'' alice ''t2'' 200 Completes Completes Completes
                    (Throws NonError) demoDb))) = {}"
proof -
  have ev: "''e1'' \<noteq> []" by simp
  have seated: "set (seatedAt ''e1'' (uid alice) demoDb) = {''t1''}"
    by (simp add: seatedAt_def demo_tables table1_def table2_def openTable_def alice_def)
  have differs: "''t2'' \<noteq> ''t1''" by simp
  have target: "find (\<lambda>(k, t). k = ''t2'') (tablesQuery ''e1'' demoDb) = Some (''t2'', table2)"
    by (simp add: demo_tablesQuery demo_tables)
  have room: "\<not> tableFull table2"
    by (simp add: tableFull_def table2_def)
  from joinTable_moves_user [OF ev seated differs target room, of 200 NonError Completes NonError]
  show ?thesis using seated target room by blast
qed

theorem joinTable_capacity_guard_witness:
  "distinct (map fst (virtualTables demoDb)) \<and> withinCapacity demoDb
   \<and> handleJoinTable (Some bob) 200 Completes Completes demoDb
        (handleTableSelect (''t1'', table1) VirtualTables_init)
       = (demoDb, (handleTableSelect (''t1'', table1) VirtualTables_init)
                    \<lparr>vtError := Some ''This table is full''\<rparr>)
   \<and> withinCapacity (joinAttempts
        [(''e1'', bob, ''t1'', 200, Completes, Completes, Completes, Completes),
         (''e1'', carol, ''t2'', 210, Completes, Completes, Completes, Completes),
         (''e1'', alice, ''t2'', 220, Completes, Completes, Completes, Completes)] demoDb)"
proof -
  have keys: "distinct (map fst (virtualTables demoDb))"
    by (simp add: demo_tables)
  have inv: "withinCapacity demoDb"
    by (simp add: withinCapacity_def demo_tables table1_def table2_def openTable_def
          positiveWhole_def)
  have sel: "selectedTable (handleTableSelect (''t1'', table1) VirtualTables_init)
               = Some (''t1'', table1)"
    by (simp add: handleTableSelect_def)
  have cap: "capacity table1 = Some 1" "(1::rat) \<noteq> 0"
    "(1::rat) \<le> of_nat (length (tParticipants table1))"
    by (simp_all add: table1_def)
  from joinTable_capacity_guard [OF keys inv,
      of "handleTableSelect (''t1'', table1) VirtualTables_init" "''t1''" table1 1 bob 200
         Completes Completes]
  show ?thesis using keys inv sel cap by blast
qed

lemma demo_fetch_carol:
  "fetchTables ''e1'' (Some carol) Completes Completes demoDb VirtualTables_init =
     VirtualTables_init
       \<lparr>tables := virtualTables demoDb,
        usersData := [(''alice'', aliceProfile)],
        joinedTable := None,
        vtLoading := False\<rparr>"
proof -
  have ids: "userIdsOf (virtualTables demoDb) = [''alice'', ''bob'']"
    by (simp add: userIdsOf_def demo_tables table1_def table2_def openTable_def)
  have us: "lookupUsers demoDb [''alice'', ''bob''] = [(''alice'', aliceProfile)]"
    by (simp add: lookupUsers_def getDoc_def demoDb_def)
  have nowhere: "find (\<lambda>(k, t). uid carol \<in> set (tParticipants t)) (virtualTables demoDb) = None"
    by (simp add: demo_tables table1_def table2_def openTable_def carol_def)
  show ?thesis
    unfolding fetchTables_ok [of "''e1''" carol demoDb, simplified] demo_tablesQuery ids us nowhere
    by simp
qed

theorem joinTable_capacity_counterexample:
  "capacity openTable = Some 0
   \<and> (0::rat) \<le> of_nat (length (tParticipants openTable))
   \<and> vtError (snd (joinAttempt ''e1'' carol ''t3'' 200 Completes Completes Completes Completes
                      demoDb)) = None
   \<and> getDoc (virtualTables (fst (joinAttempt ''e1'' carol ''t3'' 200 Completes Completes
                                    Completes Completes demoDb))) ''t3''
       = Some (openTable\<lparr>tParticipants := [''carol''], tUpdatedAt := 200\<rparr>)
   \<and> (0::rat) < of_nat (length [''carol''])"
proof -
  let ?st = "VirtualTables_init
       \<lparr>tables := virtualTables demoDb,
        usersData := [(''alice'', aliceProfile)],
        joinedTable := None,
        vtLoading := False\<rparr>"
  have grid: "rendersGrid ?st"
    by (simp add: rendersGrid_def VirtualTables_init_def)
  have pick: "find (\<lambda>(k, t). k = ''t3'') (tables ?st) = Some (''t3'', openTable)"
    by (simp add: demo_tables)
  have nf: "\<not> tableFull openTable"
    by (simp add: tableFull_def openTable_def)
  have wr: "joinWrites carol (''t3'', openTable) 200 Completes Completes demoDb
              (handleTableSelect (''t3'', openTable) ?st)
            = (demoDb\<lparr>virtualTables :=
                 [(''t1'', table1), (''t2'', table2),
                  (''t3'', openTable\<lparr>tParticipants := [''carol''], tUpdatedAt := 200\<rparr>)]\<rparr>,
               (handleTableSelect (''t3'', openTable) ?st)
                 \<lparr>joinedTable := Some (''t3'', openTable), selectedTable := None,
                  showJitsi := True\<rparr>)"
    by (simp add: joinWrites_def handleTableSelect_def awaitUpdateDoc_def updateDoc_def
          demo_tables arrayUnion_def openTable_def carol_def)
  have run: "joinAttempt ''e1'' carol ''t3'' 200 Completes Completes Completes Completes demoDb
            = (demoDb\<lparr>virtualTables :=
                 [(''t1'', table1), (''t2'', table2),
                  (''t3'', openTable\<lparr>tParticipants := [''carol''], tUpdatedAt := 200\<rparr>)]\<rparr>,
               (handleTableSelect (''t3'', openTable) ?st)
                 \<lparr>joinedTable := Some (''t3'', openTable), selectedTable := None,
                  showJitsi := True\<rparr>)"
    unfolding joinAttempt_def demo_fetch_carol Let_def
    using grid pick nf wr by (simp add: handleJoinTable_def handleTableSelect_def)
  show ?thesis
    unfolding run
    by (simp add: getDoc_def openTable_def handleTableSelect_def VirtualTables_init_def)
qed

theorem joinTable_zero_capacity_never_full_witness:
  "selectedTable (handleTableSelect (''t3'', openTable) VirtualTables_init)
     = Some (''t3'', openTable)
   \<and> capacity openTable = Some 0
   \<and> handleJoinTable (Some carol) 200 Completes Completes demoDb
        (handleTableSelect (''t3'', openTable) VirtualTables_init)
       = joinWrites carol (''t3'', openTable) 200 Completes Completes demoDb
           (handleTableSelect (''t3'', openTable) VirtualTables_init)
   \<and> (\<exists>t'. (''t3'', t') \<in> set (virtualTables (fst (handleJoinTable (Some carol) 200 Completes
                  Completes demoDb (handleTableSelect (''t3'', openTable) VirtualTables_init))))
          \<and> uid carol \<in> set (tParticipants t'))"
proof -
  have sel: "selectedTable (handleTableSelect (''t3'', openTable) VirtualTables_init)
               = Some (''t3'', openTable)"
    by (simp add: handleTableSelect_def)
  have cap: "capacity openTable = Some 0" by (simp add: openTable_def)
  have cap': "capacity openTable = None \<or> capacity openTable = Some 0" using cap by simp
  have j: "joinedTable (handleTableSelect (''t3'', openTable) VirtualTables_init) = None"
    by (simp add: handleTableSelect_def VirtualTables_init_def)
  have t: "(''t3'', openTable) \<in> set (virtualTables demoDb)" by (simp add: demo_tables)
  from joinTable_zero_capacity_never_full [OF sel cap', of carol 200 Completes Completes demoDb
         openTable]
  show ?thesis using sel cap j t by blast
qed

section \<open>Creating an event\<close>

text \<open>
  C9. Whenever \<open>handleSubmit\<close> stores an event (the events collection is changed), there is
  a logged-in user, the collection has gained exactly one record, under the id the store
  assigned, whose participants are the one-element list holding the creating user's id (who
  is also \<open>createdBy\<close>), and the form navigates to the new event.
\<close>

theorem handleSubmit_creator_participates:
  assumes "events (fst (handleSubmit userProfile parseDate room srv newId w db st)) \<noteq> events db"
  shows "\<exists>up ev. userProfile = Some up
           \<and> events (fst (handleSubmit userProfile parseDate room srv newId w db st))
               = events db @ [(newId, ev)]
           \<and> eParticipants ev = [id' up] \<and> createdBy ev = id' up
           \<and> ecNavigated (snd (handleSubmit userProfile parseDate room srv newId w db st))
               = Some (''/events/'' @ newId)"
  using assms
  by (auto simp: handleSubmit_def Let_def addDoc_def split: option.splits if_splits transport.splits)

theorem handleSubmit_creator_participates_witness:
  "events (fst (handleSubmit (Some aliceProfile) demoParse ''event-100-abcde'' 90 ''e2''
                  Completes demoDb demoForm)) \<noteq> events demoDb
   \<and> (\<exists>ev. events (fst (handleSubmit (Some aliceProfile) demoParse ''event-100-abcde'' 90 ''e2''
                          Completes demoDb demoForm)) = events demoDb @ [(''e2'', ev)]
          \<and> eParticipants ev = [''alice''])"
proof -
  have stored: "events (fst (handleSubmit (Some aliceProfile) demoParse ''event-100-abcde'' 90
                               ''e2'' Completes demoDb demoForm)) \<noteq> events demoDb"
    by (simp add: handleSubmit_def demoForm_def demoParse_def dateGe_def addDoc_def Let_def)
  from handleSubmit_creator_participates [OF stored]
  show ?thesis using stored by (auto simp: aliceProfile_def)
qed

section \<open>Creating a table\<close>

text \<open>
  C8. The handler of the create-table dialog stores the capacity the field holds. With the
  name "Big table" and the capacity 100 typed in, the table is stored with capacity 100,
  above the field's \<open>max\<close> of 50; with the capacity field cleared, the table is stored with
  capacity 0, below the field's \<open>min\<close> of 1. In both cases the participant list is empty.
\<close>

theorem createTable_stores_capacity_outside_range:
  "fst (createTable ''e1'' 300 ''t9'' Completes Completes demoDb
          (onCapacityChange (Some 100) (onNameChange ''Big table'' VirtualTables_init)))
     = demoDb\<lparr>virtualTables := virtualTables demoDb @
          [(''t9'', \<lparr>tEventId = ''e1'', tName = ''Big table'', capacity = Some 100,
                    tParticipants = [], tCreatedAt = 300, tUpdatedAt = 300\<rparr>)]\<rparr>
   \<and> \<not> (100 \<le> capacityMax)
   \<and> fst (createTable ''e1'' 300 ''t9'' Completes Completes demoDb
            (onCapacityChange None (onNameChange ''Lounge'' VirtualTables_init)))
     = demoDb\<lparr>virtualTables := virtualTables demoDb @
          [(''t9'', \<lparr>tEventId = ''e1'', tName = ''Lounge'', capacity = Some 0,
                    tParticipants = [], tCreatedAt = 300, tUpdatedAt = 300\<rparr>)]\<rparr>
   \<and> \<not> (capacityMin \<le> 0)"
proof -
  have t1: "trim ''Big table'' = ''Big table''" by (simp add: trim_def isSpace_def)
  have t2: "trim ''Lounge'' = ''Lounge''" by (simp add: trim_def isSpace_def)
  show ?thesis
    by (simp add: createTable_def onCapacityChange_def onNameChange_def t1 t2 addDoc_def Let_def
          capacityMax_def capacityMin_def)
qed

section \<open>Teardown of the conferencing session\<close>

lemma foldl_addListener:
  "foldl (\<lambda>a (ev, cb). addListener ev cb a) api xs = api\<lparr>listeners := listeners api @ xs\<rparr>"
  by (induction xs arbitrary: api) (auto simp: addListener_def)

text \<open>
  C7. A session from mount to unmount, with the container mounted, a logged-in user and the
  token and the API delivered: the cleanup closure holds the \<open>jitsiAPI\<close> cell of the first
  render, which is null, so it removes no listener and disposes nothing. After unmounting,
  the API object still has every listener \<open>initJitsi\<close> registered and is not disposed.
  When a handler changes once in between, the second cleanup works on the first API object
  with the new references: the first object keeps the listener whose reference changed and
  the second object is left with all its listeners, not disposed.
\<close>

theorem useJitsi_unmount_leaves_listeners:
  "mountThenUnmount props (Some u) =
     ([\<lparr>apiRoomName = roomName props, listeners = eventHandlers props, disposed = False\<rparr>],
      \<lparr>jitsiAPI = Some 0, isLoading = False, ujError = None\<rparr>)
   \<and> fst (mountThenUnmount demoProps (Some aliceProfile)) =
       [\<lparr>apiRoomName = ''event-100-abcde'',
         listeners = [(''participantJoined'', 1), (''participantLeft'', 2),
                      (''videoConferenceJoined'', 3), (''videoConferenceLeft'', 4)],
         disposed = False\<rparr>]
   \<and> fst (rerenderThenUnmount demoProps (demoProps\<lparr>onVideoConferenceLeft := Some 5\<rparr>)
             (Some aliceProfile)) =
       [\<lparr>apiRoomName = ''event-100-abcde'',
         listeners = [(''videoConferenceLeft'', 4)],
         disposed = True\<rparr>,
        \<lparr>apiRoomName = ''event-100-abcde'',
         listeners = [(''participantJoined'', 1), (''participantLeft'', 2),
                      (''videoConferenceJoined'', 3), (''videoConferenceLeft'', 5)],
         disposed = False\<rparr>]"
proof -
  have g: "mountThenUnmount props (Some u) =
     ([\<lparr>apiRoomName = roomName props, listeners = eventHandlers props, disposed = False\<rparr>],
      \<lparr>jitsiAPI = Some 0, isLoading = False, ujError = None\<rparr>)" for props u
    by (simp add: mountThenUnmount_def useJitsi_effect_def runCleanup_def useJitsi_init_def
          foldl_addListener Let_def)
  have r: "fst (rerenderThenUnmount demoProps (demoProps\<lparr>onVideoConferenceLeft := Some 5\<rparr>)
             (Some aliceProfile)) =
       [\<lparr>apiRoomName = ''event-100-abcde'',
         listeners = [(''videoConferenceLeft'', 4)],
         disposed = True\<rparr>,
        \<lparr>apiRoomName = ''event-100-abcde'',
         listeners = [(''participantJoined'', 1), (''participantLeft'', 2),
                      (''videoConferenceJoined'', 3), (''videoConferenceLeft'', 5)],
         disposed = False\<rparr>]"
    by (simp add: rerenderThenUnmount_def useJitsi_effect_def runCleanup_def useJitsi_init_def
          foldl_addListener Let_def eventHandlers_def demoProps_def onApi_def
          removeListener_def dispose_def)
  show ?thesis
    unfolding g r by (simp add: eventHandlers_def demoProps_def)
qed

section \<open>Starting a recording\<close>

lemma resolve_settled [simp]: "resolve Fulfilled = Fulfilled" "resolve (Rejected e) = Rejected e"
  "resolve Pending = Fulfilled"
  by (simp_all add: resolve_def)

lemma reject_settled [simp]: "reject e Fulfilled = Fulfilled" "reject e (Rejected e') = Rejected e'"
  "reject e Pending = Rejected e"
  by (simp_all add: reject_def)

lemma fulfilled_only_after_status:
  "promise (foldl (\<lambda>r t. runTask t r) r ts) = Fulfilled \<Longrightarrow>
   promise r = Fulfilled \<or> RecordingStatusChanged True \<in> set ts"
proof (induction ts arbitrary: r)
  case Nil
  then show ?case by simp
next
  case (Cons t ts)
  from Cons.IH [of "runTask t r"] Cons.prems
  have "promise (runTask t r) = Fulfilled \<or> RecordingStatusChanged True \<in> set ts" by simp
  then show ?case
  proof
    assume f: "promise (runTask t r) = Fulfilled"
    show ?thesis
    proof (cases t)
      case (RecordingStatusChanged on)
      then show ?thesis using f by (cases "promise r") (auto split: if_splits)
    next
      case TimerFired
      then show ?thesis using f by (cases "promise r") auto
    qed
  qed simp
qed

lemma run_statuses:
  "foldl (\<lambda>r t. runTask t r) r (map (\<lambda>(t, on). RecordingStatusChanged on) xs) =
     (if statusListener r \<and> (\<exists>(t, on) \<in> set xs. on) then r\<lparr>promise := resolve (promise r)\<rparr> else r)"
proof (induction xs arbitrary: r)
  case Nil
  then show ?case by simp
next
  case (Cons x xs)
  obtain t on where x: "x = (t, on)" by (cases x)
  show ?case
    unfolding x using Cons.IH [of "runTask (RecordingStatusChanged on) r"]
    by (cases "promise r") auto
qed

lemma startRecording_outcome:
  "promise (eventLoop (startRecording exec add) evs) =
     (case exec of
        Throws e \<Rightarrow> Rejected e
      | Completes \<Rightarrow>
          (case add of
             Throws e \<Rightarrow> Rejected e
           | Completes \<Rightarrow>
               if (\<exists>(t, on) \<in> set evs. t < 10000 \<and> on) then Fulfilled
               else Rejected (JsError ''Recording start timeout'')))"
proof (cases exec)
  case (Throws e)
  then show ?thesis
    by (simp add: eventLoop_def startRecording_def agenda_def run_statuses)
next
  case Completes
  show ?thesis
  proof (cases add)
    case (Throws e)
    then show ?thesis using Completes
      by (simp add: eventLoop_def startRecording_def agenda_def run_statuses)
  next
    case c2: Completes
    let ?r0 = "\<lparr>promise = Pending, statusListener = True, timeout = Some 10000,
                executed = [(''startRecording'', ''file'')]\<rparr>"
    have e: "(\<exists>(t, on) \<in> set (filter (\<lambda>(t, on). t < 10000) evs). on)
               \<longleftrightarrow> (\<exists>(t, on) \<in> set evs. t < 10000 \<and> on)"
      by auto
    show ?thesis
      using Completes c2
      by (simp add: eventLoop_def startRecording_def agenda_def run_statuses e
               del: set_filter)
  qed
qed

text \<open>
  C5. Whatever callbacks the event loop has run after \<open>startRecording\<close>, the promise is
  fulfilled only if a \<open>recordingStatusChanged\<close> event with \<open>on = true\<close> was among them, and
  at the end only if such an event arrived before the 10000 ms had passed. If the command and
  the listener registration returned normally and no such event arrived in that time, the
  promise is rejected with the error "Recording start timeout". Whenever the promise is not
  fulfilled, \<open>handleStartRecording\<close> leaves \<open>isRecording\<close> as it was; \<open>isRecording\<close> turns
  true only when the promise is fulfilled.
\<close>

theorem startRecording_resolves_or_times_out:
  "(promise (foldl (\<lambda>r t. runTask t r) (startRecording exec add) ts) = Fulfilled \<longrightarrow>
      RecordingStatusChanged True \<in> set ts)
   \<and> (promise (eventLoop (startRecording exec add) evs) = Fulfilled \<longrightarrow>
        (\<exists>(t, on) \<in> set evs. t < 10000 \<and> on))
   \<and> (exec = Completes \<and> add = Completes \<and> \<not> (\<exists>(t, on) \<in> set evs. t < 10000 \<and> on) \<longrightarrow>
        promise (eventLoop (startRecording exec add) evs)
          = Rejected (JsError ''Recording start timeout''))
   \<and> (promise (eventLoop (startRecording exec add) evs) \<noteq> Fulfilled \<longrightarrow>
        isRecording (handleStartRecording api exec add evs st) = isRecording st)
   \<and> (\<not> isRecording st \<and> isRecording (handleStartRecording api exec add evs st) \<longrightarrow>
        promise (eventLoop (startRecording exec add) evs) = Fulfilled)"
proof -
  have p0: "promise (startRecording exec add) \<noteq> Fulfilled"
    by (simp add: startRecording_def split: transport.splits)
  have 1: "promise (foldl (\<lambda>r t. runTask t r) (startRecording exec add) ts) = Fulfilled \<longrightarrow>
      RecordingStatusChanged True \<in> set ts"
    using fulfilled_only_after_status [of "startRecording exec add" ts] p0 by blast
  have 2: "promise (eventLoop (startRecording exec add) evs) = Fulfilled \<longrightarrow>
        (\<exists>(t, on) \<in> set evs. t < 10000 \<and> on)"
    unfolding startRecording_outcome by (simp split: transport.splits if_splits)
  have 3: "exec = Completes \<and> add = Completes \<and> \<not> (\<exists>(t, on) \<in> set evs. t < 10000 \<and> on) \<longrightarrow>
        promise (eventLoop (startRecording exec add) evs)
          = Rejected (JsError ''Recording start timeout'')"
    unfolding startRecording_outcome by simp
  have 4: "promise (eventLoop (startRecording exec add) evs) \<noteq> Fulfilled \<longrightarrow>
        isRecording (handleStartRecording api exec add evs st) = isRecording st"
    by (simp add: handleStartRecording_def Let_def split: option.splits promise.splits)
  have 5: "\<not> isRecording st \<and> isRecording (handleStartRecording api exec add evs st) \<longrightarrow>
        promise (eventLoop (startRecording exec add) evs) = Fulfilled"
    using 4 by blast
  show ?thesis using 1 2 3 4 5 by blast
qed

theorem startRecording_resolves_or_times_out_witness:
  "\<not> (\<exists>(t, on) \<in> set [(3000, False), (12000, True)]. t < (10000::nat) \<and> on)
   \<and> promise (eventLoop (startRecording Completes Completes) [(3000, False), (12000, True)])
       = Rejected (JsError ''Recording start timeout'')
   \<and> isRecording (handleStartRecording (Some 0) Completes Completes
                     [(3000, False), (12000, True)]
                     \<lparr>isRecording = False, recordingError = None\<rparr>) = False
   \<and> promise (eventLoop (startRecording Completes Completes) [(3000, False), (4000, True)])
       = Fulfilled"
proof -
  have none: "\<not> (\<exists>(t, on) \<in> set [(3000, False), (12000, True)]. t < (10000::nat) \<and> on)"
    by simp
  note t = startRecording_resolves_or_times_out
             [of Completes Completes "[]" "[(3000, False), (12000, True)]" "Some 0"
                 "\<lparr>isRecording = False, recordingError = None\<rparr>"]
  have rej: "promise (eventLoop (startRecording Completes Completes) [(3000, False), (12000, True)])
       = Rejected (JsError ''Recording start timeout'')"
    using t none by blast
  have stay: "isRecording (handleStartRecording (Some 0) Completes Completes
                     [(3000, False), (12000, True)]
                     \<lparr>isRecording = False, recordingError = None\<rparr>) = False"
    using t rej by simp
  have ful: "promise (eventLoop (startRecording Completes Completes) [(3000, False), (4000, True)])
       = Fulfilled"
    by (simp add: eventLoop_def startRecording_def agenda_def)
  show ?thesis using none rej stay ful by blast
qed

end
